theory Spec2Isabelle
  imports Main
begin

section \<open>Text\<close>

text \<open>
  A Python text is a list of code points and a code point is an integer; a
  sequence of bytes (the content of a response, the content of a file) is a list of
  8-bit characters. The literals of the program are ASCII: \<open>str\<close> is the text
  of a literal and \<open>cp\<close> the code point of a character.

  The class \<open>\d\<close> of the regular expressions is the decimal digits of Unicode
  (category Nd): runs of ten consecutive code points from a zero to a nine, given by
  the 66 zeros of Unicode 14.0. The class \<open>\s\<close> is the whitespace of Unicode, and
  \<open>.\<close> is every code point but the newline.
\<close>

type_synonym unicode = "int list"

definition cp :: "char \<Rightarrow> int" where
  "cp c = of_char c"

definition str :: "string \<Rightarrow> unicode" where
  "str s = map cp s"

definition newline :: int where
  "newline = 10"

definition decimal_zeros :: "int list" where
  "decimal_zeros =
     [48, 1632, 1776, 1984, 2406, 2534, 2662, 2790, 2918, 3046, 3174, 3302, 3430, 3558,
      3664, 3792, 3872, 4160, 4240, 6112, 6160, 6470, 6608, 6784, 6800, 6992, 7088,
      7232, 7248, 42528, 43216, 43264, 43472, 43504, 43600, 44016, 65296, 66720, 68912,
      69734, 69872, 69942, 70096, 70384, 70736, 70864, 71248, 71360, 71472, 71904,
      72016, 72784, 73040, 73120, 92768, 92864, 93008, 120782, 120792, 120802, 120812,
      120822, 123200, 123632, 125264, 130032]"

definition is_digit :: "int \<Rightarrow> bool" where
  "is_digit c = list_ex (\<lambda>zero. zero \<le> c \<and> c < zero + 10) decimal_zeros"

definition is_space :: "int \<Rightarrow> bool" where
  "is_space c =
     (c \<in> set [9, 10, 11, 12, 13, 28, 29, 30, 31, 32, 133, 160, 5760, 8192, 8193, 8194,
               8195, 8196, 8197, 8198, 8199, 8200, 8201, 8202, 8232, 8233, 8239, 8287,
               12288])"

text \<open>\<open>sub in s\<close>: the text \<open>sub\<close> occurs in \<open>s\<close>.\<close>

fun contains :: "unicode \<Rightarrow> unicode \<Rightarrow> bool" where
  "contains [] sub = (sub = [])"
| "contains (c # cs) sub = (take (length sub) (c # cs) = sub \<or> contains cs sub)"

text \<open>\<open>s.replace("\n", " ")\<close>.\<close>

definition replace_newlines :: "unicode \<Rightarrow> unicode" where
  "replace_newlines s = map (\<lambda>c. if c = newline then (cp CHR '' '') else c) s"

text \<open>\<open>s.split("/")[-1]\<close>: the text after the last \<open>/\<close>, all of \<open>s\<close> when it has none.\<close>

definition last_segment :: "unicode \<Rightarrow> unicode" where
  "last_segment s = rev (takeWhile (\<lambda>c. c \<noteq> (cp CHR ''/'')) (rev s))"

text \<open>The words of a text, split at whitespace, and \<open>" ".join\<close>.\<close>

fun split_words :: "unicode \<Rightarrow> unicode \<Rightarrow> unicode list" where
  "split_words [] w = (if w = [] then [] else [w])"
| "split_words (c # cs) w =
     (if is_space c then (if w = [] then split_words cs [] else w # split_words cs [])
      else split_words cs (w @ [c]))"

fun join_words :: "unicode list \<Rightarrow> unicode" where
  "join_words [] = []"
| "join_words [w] = w"
| "join_words (w # ws) = w @ (str '' '') @ join_words ws"

text \<open>A literal at the start of a text: the rest of the text after it.\<close>

fun strip_prefix :: "unicode \<Rightarrow> unicode \<Rightarrow> unicode option" where
  "strip_prefix [] s = Some s"
| "strip_prefix (p # ps) [] = None"
| "strip_prefix (p # ps) (c # cs) = (if p = c then strip_prefix ps cs else None)"

subsection \<open>The compiled patterns\<close>

text \<open>
  \<open>$\<close> matches at the end of the text and before a newline that ends the text, so the
  patterns with \<open>$\<close> are read on the text without one final newline.
\<close>

definition chomp :: "unicode \<Rightarrow> unicode" where
  "chomp s = (if s \<noteq> [] \<and> last s = newline then butlast s else s)"

datatype pattern =
    Pdf_a4_zip   \<comment> \<open>\<open>re.compile(r".+pdf-a4\.zip$")\<close>\<close>
  | Digits       \<comment> \<open>\<open>re.compile(r"^\d+$")\<close>\<close>

text \<open>\<open>pattern.search(s) is not None\<close>.\<close>

fun re_search :: "pattern \<Rightarrow> unicode \<Rightarrow> bool" where
  "re_search Pdf_a4_zip s =
     (let r = rev (chomp s) in
      take 10 r = rev (str ''pdf-a4.zip'') \<and>
      (case drop 10 r of [] \<Rightarrow> False | c # _ \<Rightarrow> c \<noteq> newline))"
| "re_search Digits s = (chomp s \<noteq> [] \<and> list_all is_digit (chomp s))"

text \<open>
  \<open>re.search(r"Python (?P<version>\d\.\d+) \((?P<status>.*)\)", s)\<close>, as the groups of the
  match. \<open>match_version_at\<close> is the match that starts at the first character of the text:
  the literal \<open>Python \<close>, one digit, a dot, the longest run of digits (a shorter run is
  followed by a digit, never by the space the pattern wants), the literal \<open> (\<close>, then
  \<open>.*\<close> backtracks from the end of the line to the last \<open>)\<close> of the line.
  \<open>re.search\<close> takes the first start position, from the left, that has a match.
\<close>

definition match_version_at :: "unicode \<Rightarrow> (unicode \<times> unicode) option" where
  "match_version_at s =
     (case strip_prefix (str ''Python '') s of
        None \<Rightarrow> None
      | Some s1 \<Rightarrow>
          (case s1 of
             d # dot # s2 \<Rightarrow>
               if is_digit d \<and> dot = (cp CHR ''.'') \<and> takeWhile is_digit s2 \<noteq> [] then
                 (case strip_prefix (str '' ('') (dropWhile is_digit s2) of
                    None \<Rightarrow> None
                  | Some s3 \<Rightarrow>
                      let line = takeWhile (\<lambda>c. c \<noteq> newline) s3 in
                      if (cp CHR '')'') \<in> set line then
                        Some (d # dot # takeWhile is_digit s2,
                              rev (tl (dropWhile (\<lambda>c. c \<noteq> (cp CHR '')'')) (rev line))))
                      else None)
               else None
           | _ \<Rightarrow> None))"

fun search_version :: "unicode \<Rightarrow> (unicode \<times> unicode) option" where
  "search_version [] = match_version_at []"
| "search_version (c # cs) =
     (case match_version_at (c # cs) of
        Some g \<Rightarrow> Some g
      | None \<Rightarrow> search_version cs)"

section \<open>Parsed documents\<close>

text \<open>
  A parsed document is a tree of tags and strings. An element, as the parsing library
  hands it to the handlers, is a node together with its place in the document: the
  path of enclosing tags up to the root, each with the siblings to the left (nearest
  first) and to the right of the node.
\<close>

datatype node =
    Tag unicode "(unicode \<times> unicode) list" "node list"
  | NavigableString unicode

type_synonym crumb = "unicode \<times> (unicode \<times> unicode) list \<times> node list \<times> node list"

type_synonym element = "node \<times> crumb list"

text \<open>The children of a tag from a given child on, as elements.\<close>

fun contents_from ::
  "unicode \<Rightarrow> (unicode \<times> unicode) list \<Rightarrow> crumb list \<Rightarrow> node list \<Rightarrow> node list \<Rightarrow> element list"
where
  "contents_from n a up ls [] = []"
| "contents_from n a up ls (c # rs) =
     (c, (n, a, ls, rs) # up) # contents_from n a up (c # ls) rs"

text \<open>The descendants of an element in document order.\<close>

fun descendants_node :: "node \<Rightarrow> crumb list \<Rightarrow> element list"
and descendants_list ::
  "unicode \<Rightarrow> (unicode \<times> unicode) list \<Rightarrow> crumb list \<Rightarrow> node list \<Rightarrow> node list \<Rightarrow> element list"
where
  "descendants_node (NavigableString s) up = []"
| "descendants_node (Tag n a cs) up = descendants_list n a up [] cs"
| "descendants_list n a up ls [] = []"
| "descendants_list n a up ls (c # rs) =
     (c, (n, a, ls, rs) # up) # descendants_node c ((n, a, ls, rs) # up)
       @ descendants_list n a up (c # ls) rs"

definition descendants :: "element \<Rightarrow> element list" where
  "descendants e = descendants_node (fst e) (snd e)"

text \<open>\<open>.text\<close>: the strings below a node, concatenated.\<close>

fun get_text :: "node \<Rightarrow> unicode" where
  "get_text (NavigableString s) = s"
| "get_text (Tag n a cs) = concat (map get_text cs)"

text \<open>\<open>.string\<close>: the string of a node that holds a single string, directly or nested.\<close>

fun string_of :: "node \<Rightarrow> unicode option" where
  "string_of (NavigableString s) = Some s"
| "string_of (Tag n a [c]) = string_of c"
| "string_of (Tag n a cs) = None"

text \<open>\<open>tag[key]\<close>; \<open>None\<close> stands for the \<open>KeyError\<close>.\<close>

fun tag_get :: "node \<Rightarrow> unicode \<Rightarrow> unicode option" where
  "tag_get (Tag n a cs) key = map_of a key"
| "tag_get (NavigableString s) key = None"

text \<open>
  A search filter is a text, compared for equality, or a compiled pattern, searched
  for. The \<open>class\<close> attribute is a list of class names: a filter matches it when it
  matches one of the names or the names joined by single spaces.
\<close>

datatype matcher = Equals unicode | Regex pattern

fun matches :: "matcher \<Rightarrow> unicode \<Rightarrow> bool" where
  "matches (Equals s) v = (v = s)"
| "matches (Regex p) v = re_search p v"

definition attr_matches :: "(unicode \<times> unicode) list \<Rightarrow> unicode \<times> matcher \<Rightarrow> bool" where
  "attr_matches a f =
     (case map_of a (fst f) of
        None \<Rightarrow> False
      | Some v \<Rightarrow>
          if fst f = (str ''class'') then
            list_ex (matches (snd f)) (split_words v [])
              \<or> matches (snd f) (join_words (split_words v []))
          else matches (snd f) v)"

fun tag_matches :: "unicode \<Rightarrow> (unicode \<times> matcher) list \<Rightarrow> node \<Rightarrow> bool" where
  "tag_matches name attrs (Tag n a cs) = (n = name \<and> list_all (attr_matches a) attrs)"
| "tag_matches name attrs (NavigableString s) = False"

text \<open>\<open>find_all(name, attrs)\<close> and \<open>find(name, attrs)\<close>.\<close>

definition find_all :: "element \<Rightarrow> unicode \<Rightarrow> (unicode \<times> matcher) list \<Rightarrow> element list" where
  "find_all e name attrs = filter (\<lambda>d. tag_matches name attrs (fst d)) (descendants e)"

definition find :: "element \<Rightarrow> unicode \<Rightarrow> (unicode \<times> matcher) list \<Rightarrow> element option" where
  "find e name attrs = (case find_all e name attrs of [] \<Rightarrow> None | d # _ \<Rightarrow> Some d)"

text \<open>\<open>find_all(name, string=m)\<close>: the tags of that name whose \<open>.string\<close> matches.\<close>

definition find_all_string :: "element \<Rightarrow> unicode \<Rightarrow> matcher \<Rightarrow> element list" where
  "find_all_string e name m =
     filter (\<lambda>d. tag_matches name [] (fst d) \<and>
                 (case string_of (fst d) of None \<Rightarrow> False | Some s \<Rightarrow> matches m s))
       (descendants e)"

text \<open>\<open>find(string=s)\<close>: the first string below the element that is equal to \<open>s\<close>.\<close>

definition find_string :: "element \<Rightarrow> unicode \<Rightarrow> element option" where
  "find_string e s =
     (case filter (\<lambda>d. fst d = NavigableString s) (descendants e) of
        [] \<Rightarrow> None
      | d # _ \<Rightarrow> Some d)"

text \<open>\<open>.parent\<close> and \<open>find_next_sibling(name)\<close>.\<close>

fun parent :: "element \<Rightarrow> element option" where
  "parent (c, []) = None"
| "parent (c, (n, a, ls, rs) # up) = Some (Tag n a (rev ls @ c # rs), up)"

fun next_siblings :: "element \<Rightarrow> element list" where
  "next_siblings (c, []) = []"
| "next_siblings (c, (n, a, ls, rs) # up) = contents_from n a up (c # ls) rs"

definition find_next_sibling :: "element \<Rightarrow> unicode \<Rightarrow> element option" where
  "find_next_sibling e name =
     (case filter (\<lambda>d. tag_matches name [] (fst d)) (next_siblings e) of
        [] \<Rightarrow> None
      | d # _ \<Rightarrow> Some d)"

section \<open>Configuration, session and file system\<close>

text \<open>
  A table is a list of rows and a row is a tuple of texts and numbers. The header rows
  of the two listings and the message of \<open>latest_versions\<close>'s exception are Russian
  texts, given here by their code points.
\<close>

datatype cell = S unicode | N int

type_synonym row = "cell list"

definition whats_new_header :: row where
  \<comment> \<open>"Ssylka na stat'yu", "Zagolovok", "Redaktor, Avtor"\<close>
  "whats_new_header =
     [S [1057, 1089, 1099, 1083, 1082, 1072, 32, 1085, 1072, 32, 1089, 1090, 1072,
         1090, 1100, 1102],
      S [1047, 1072, 1075, 1086, 1083, 1086, 1074, 1086, 1082],
      S [1056, 1077, 1076, 1072, 1082, 1090, 1086, 1088, 44, 32, 1040, 1074, 1090,
         1086, 1088]]"

definition latest_versions_header :: row where
  \<comment> \<open>"Ssylka na dokumentatsiyu", "Versiya", "Status"\<close>
  "latest_versions_header =
     [S [1057, 1089, 1099, 1083, 1082, 1072, 32, 1085, 1072, 32, 1076, 1086, 1082,
         1091, 1084, 1077, 1085, 1090, 1072, 1094, 1080, 1102],
      S [1042, 1077, 1088, 1089, 1080, 1103],
      S [1057, 1090, 1072, 1090, 1091, 1089]]"

definition nothing_found :: unicode where
  \<comment> \<open>"Nichego ne nashlos'"\<close>
  "nothing_found =
     [1053, 1080, 1095, 1077, 1075, 1086, 32, 1085, 1077, 32, 1085, 1072, 1096, 1083,
      1086, 1089, 1100]"

text \<open>The exceptions a handler can raise.\<close>

datatype error =
    Tag_not_found unicode "(unicode \<times> matcher) list"
  | Exception unicode
  | KeyError unicode
  | AttributeError
  | FileExistsError
  | FileNotFoundError
  | NotADirectoryError
  | IsADirectoryError

record response =
  response_text :: unicode
  response_content :: string

datatype mode = Whats_new | Latest_versions | Download | Pep

record args =
  args_mode :: mode
  clear_cache :: bool

text \<open>The lines the handlers and the driver write to the log.\<close>

datatype log_entry =
    Fetch_failed unicode
  | Status_mismatch unicode
  | Archive_saved "unicode list"
  | Parser_started
  | Arguments args
  | Parser_finished

text \<open>
  The state a run changes: the \<open>GET\<close> requests made through the session, in order,
  the directories and the files on disk, and the log. A path is its list of
  components.
\<close>

record world =
  requests :: "unicode list"
  dirs :: "unicode list set"
  files :: "unicode list \<rightharpoonup> string"
  log :: "log_entry list"

text \<open>
  What a run is given and does not change. The constants \<open>MAIN_DOC_URL\<close>, \<open>PEP_URL\<close>,
  \<open>BASE_DIR\<close> and \<open>EXPECTED_STATUS\<close> come from the module \<open>constants\<close> and
  \<open>control_output\<close> from the module \<open>outputs\<close>, which are taken as parameters, as are
  the library functions \<open>urljoin\<close> and \<open>BeautifulSoup(text, "lxml")\<close>.
  \<open>session_get url\<close> is what \<open>session.get(url)\<close> gives, from the network or from the
  response cache: \<open>None\<close> when it raises a \<open>RequestException\<close>.
\<close>

record env =
  MAIN_DOC_URL :: unicode
  PEP_URL :: unicode
  BASE_DIR :: "unicode list"
  EXPECTED_STATUS :: "(unicode \<times> unicode list) list"
  urljoin :: "unicode \<Rightarrow> unicode \<Rightarrow> unicode"
  BeautifulSoup :: "unicode \<Rightarrow> node"
  session_get :: "unicode \<Rightarrow> response option"
  control_output :: "row list \<Rightarrow> args \<Rightarrow> world \<Rightarrow> (error + unit) \<times> world"

text \<open>
  Modelled from the spec: \<open>get_response\<close> of the module \<open>utils\<close>. It issues a \<open>GET\<close>;
  on a transport failure it logs the error and signals "no response" to the caller, on
  success it returns the response.
\<close>

definition get_response :: "env \<Rightarrow> unicode \<Rightarrow> world \<Rightarrow> response option \<times> world" where
  "get_response e url w =
     (case session_get e url of
        None \<Rightarrow> (None, w\<lparr>requests := requests w @ [url], log := log w @ [Fetch_failed url]\<rparr>)
      | Some r \<Rightarrow> (Some r, w\<lparr>requests := requests w @ [url]\<rparr>))"

text \<open>
  Modelled from the spec: \<open>find_tag\<close> of the module \<open>utils\<close>. It returns the first
  descendant of the node that matches the tag name and the attribute filter, and fails
  with an error that identifies the tag and the attributes sought if there is none.
\<close>

definition find_tag :: "element \<Rightarrow> unicode \<Rightarrow> (unicode \<times> matcher) list \<Rightarrow> error + element" where
  "find_tag soup tag attrs =
     (case find soup tag attrs of
        None \<Rightarrow> Inl (Tag_not_found tag attrs)
      | Some t \<Rightarrow> Inr t)"

text \<open>
  The file system reads a path component by component: an empty component and \<open>.\<close>
  stay in place, \<open>..\<close> goes up. \<open>mkdir(exist_ok=True)\<close> accepts a directory that exists
  and needs the parent to exist; \<open>open(path, "wb")\<close> with \<open>write\<close> creates the file or
  replaces its content, and fails on a directory.
\<close>

definition fs_path :: "unicode list \<Rightarrow> unicode list" where
  "fs_path p =
     foldl (\<lambda>acc c. if c = (str ''..'') then butlast acc
                     else if c = (str ''.'') \<or> c = [] then acc
                     else acc @ [c]) [] p"

definition mkdir_exist_ok :: "unicode list \<Rightarrow> world \<Rightarrow> (error + unit) \<times> world" where
  "mkdir_exist_ok p w =
     (let q = fs_path p in
      if q \<in> dirs w then (Inr (), w)
      else if files w q \<noteq> None then (Inl FileExistsError, w)
      else if files w (butlast q) \<noteq> None then (Inl NotADirectoryError, w)
      else if butlast q \<notin> dirs w then (Inl FileNotFoundError, w)
      else (Inr (), w\<lparr>dirs := insert q (dirs w)\<rparr>))"

definition write_file :: "unicode list \<Rightarrow> string \<Rightarrow> world \<Rightarrow> (error + unit) \<times> world" where
  "write_file p data w =
     (let q = fs_path p in
      if q \<in> dirs w then (Inl IsADirectoryError, w)
      else if files w (butlast q) \<noteq> None then (Inl NotADirectoryError, w)
      else if butlast q \<notin> dirs w then (Inl FileNotFoundError, w)
      else (Inr (), w\<lparr>files := (files w)(q \<mapsto> data)\<rparr>))"

section \<open>The handlers\<close>

text \<open>
  A handler takes the state of the run and returns the new state with either the
  exception it raised (\<open>Inl\<close>) or its return value (\<open>Inr\<close>): \<open>None\<close> for a bare
  \<open>return\<close>, a table otherwise. \<open>soup\<close> is the root element of a parsed text.
\<close>

type_synonym result = "(error + row list option) \<times> world"

definition soup_of :: "env \<Rightarrow> response \<Rightarrow> element" where
  "soup_of e r = (BeautifulSoup e (response_text r), [])"

subsection \<open>\<open>whats_new\<close>\<close>

text \<open>
  The body of the loop over \<open>sections_by_python\<close>: the link of a section (lines 33
  and 34) and, once the article is fetched, its row (lines 38 to 44).
\<close>

definition version_link :: "env \<Rightarrow> unicode \<Rightarrow> element \<Rightarrow> error + unicode" where
  "version_link e whats_new_url sec =
     (case find_tag sec (str ''a'') [] of
        Inl err \<Rightarrow> Inl err
      | Inr version_a_tag \<Rightarrow>
          (case tag_get (fst version_a_tag) (str ''href'') of
             None \<Rightarrow> Inl (KeyError (str ''href''))
           | Some href \<Rightarrow> Inr (urljoin e whats_new_url href)))"

definition article_row :: "unicode \<Rightarrow> element \<Rightarrow> error + row" where
  "article_row link soup =
     (case find_tag soup (str ''h1'') [] of
        Inl err \<Rightarrow> Inl err
      | Inr h1 \<Rightarrow>
          (case find_tag soup (str ''dl'') [] of
             Inl err \<Rightarrow> Inl err
           | Inr dl \<Rightarrow>
               Inr [S link, S (get_text (fst h1)), S (replace_newlines (get_text (fst dl)))]))"

text \<open>The loop, with the table built so far; \<open>continue\<close> is the call on the next section.\<close>

fun whats_new_loop ::
  "env \<Rightarrow> unicode \<Rightarrow> element list \<Rightarrow> row list \<Rightarrow> world \<Rightarrow> (error + row list) \<times> world"
where
  "whats_new_loop e whats_new_url [] result w = (Inr result, w)"
| "whats_new_loop e whats_new_url (sec # secs) result w =
     (case version_link e whats_new_url sec of
        Inl err \<Rightarrow> (Inl err, w)
      | Inr link \<Rightarrow>
          (case get_response e link w of
             (None, w1) \<Rightarrow> whats_new_loop e whats_new_url secs result w1
           | (Some response, w1) \<Rightarrow>
               (case article_row link (soup_of e response) of
                  Inl err \<Rightarrow> (Inl err, w1)
                | Inr row \<Rightarrow> whats_new_loop e whats_new_url secs (result @ [row]) w1)))"

definition whats_new :: "env \<Rightarrow> world \<Rightarrow> result" where
  "whats_new e w =
     (let whats_new_url = urljoin e (MAIN_DOC_URL e) (str ''whatsnew/'') in
      case get_response e whats_new_url w of
        (None, w1) \<Rightarrow> (Inr None, w1)
      | (Some response, w1) \<Rightarrow>
          (case find_tag (soup_of e response) (str ''section'')
                  [((str ''id''), Equals (str ''what-s-new-in-python''))] of
             Inl err \<Rightarrow> (Inl err, w1)
           | Inr main_div \<Rightarrow>
               (case find_tag main_div (str ''div'') [((str ''class''), Equals (str ''toctree-wrapper''))] of
                  Inl err \<Rightarrow> (Inl err, w1)
                | Inr div_with_ul \<Rightarrow>
                    (case whats_new_loop e whats_new_url
                            (find_all div_with_ul (str ''li'') [((str ''class''), Equals (str ''toctree-l1''))])
                            [whats_new_header] w1 of
                       (Inl err, w2) \<Rightarrow> (Inl err, w2)
                     | (Inr result, w2) \<Rightarrow> (Inr (Some result), w2)))))"

subsection \<open>\<open>latest_versions\<close>\<close>

text \<open>
  The \<open>for ... else\<close> over \<open>ul_tags\<close>: the links of the first list whose text has
  \<open>All versions\<close>, and the exception when the loop ends without a \<open>break\<close>.
\<close>

fun all_versions_links :: "element list \<Rightarrow> error + element list" where
  "all_versions_links [] = Inl (Exception nothing_found)"
| "all_versions_links (ul # ul_tags) =
     (if contains (get_text (fst ul)) (str ''All versions'') then Inr (find_all ul (str ''a'') [])
      else all_versions_links ul_tags)"

text \<open>The version and the status of one link text.\<close>

definition version_status :: "unicode \<Rightarrow> unicode \<times> unicode" where
  "version_status txt =
     (case search_version txt of
        Some (version, status) \<Rightarrow> (version, status)
      | None \<Rightarrow> (txt, []))"

text \<open>The loop over \<open>a_tags\<close>, with the table built so far.\<close>

fun latest_versions_loop :: "element list \<Rightarrow> row list \<Rightarrow> error + row list" where
  "latest_versions_loop [] results = Inr results"
| "latest_versions_loop (a_tag # a_tags) results =
     (case tag_get (fst a_tag) (str ''href'') of
        None \<Rightarrow> Inl (KeyError (str ''href''))
      | Some link \<Rightarrow>
          latest_versions_loop a_tags
            (results @ [[S link,
                         S (fst (version_status (get_text (fst a_tag)))),
                         S (snd (version_status (get_text (fst a_tag))))]]))"

definition latest_versions :: "env \<Rightarrow> world \<Rightarrow> result" where
  "latest_versions e w =
     (case get_response e (MAIN_DOC_URL e) w of
        (None, w1) \<Rightarrow> (Inr None, w1)
      | (Some response, w1) \<Rightarrow>
          (case find_tag (soup_of e response) (str ''div'')
                  [((str ''class''), Equals (str ''sphinxsidebarwrapper''))] of
             Inl err \<Rightarrow> (Inl err, w1)
           | Inr sidebar \<Rightarrow>
               (case all_versions_links (find_all sidebar (str ''ul'') []) of
                  Inl err \<Rightarrow> (Inl err, w1)
                | Inr a_tags \<Rightarrow>
                    (case latest_versions_loop a_tags [latest_versions_header] of
                       Inl err \<Rightarrow> (Inl err, w1)
                     | Inr results \<Rightarrow> (Inr (Some results), w1)))))"

subsection \<open>\<open>download\<close>\<close>

definition download :: "env \<Rightarrow> world \<Rightarrow> result" where
  "download e w =
     (let downloads_url = urljoin e (MAIN_DOC_URL e) (str ''download.html'') in
      case get_response e downloads_url w of
        (None, w1) \<Rightarrow> (Inr None, w1)
      | (Some response, w1) \<Rightarrow>
          (case find_tag (soup_of e response) (str ''table'') [((str ''class''), Equals (str ''docutils''))] of
             Inl err \<Rightarrow> (Inl err, w1)
           | Inr table_tag \<Rightarrow>
               (case find_tag table_tag (str ''a'') [((str ''href''), Regex Pdf_a4_zip)] of
                  Inl err \<Rightarrow> (Inl err, w1)
                | Inr pdf_a4_tag \<Rightarrow>
                    (case tag_get (fst pdf_a4_tag) (str ''href'') of
                       None \<Rightarrow> (Inl (KeyError (str ''href'')), w1)
                     | Some pdf_a4_link \<Rightarrow>
                         (let archive_url = urljoin e downloads_url pdf_a4_link;
                              filename = last_segment archive_url;
                              downloads_dir = BASE_DIR e @ [(str ''downloads'')]
                          in
                          case mkdir_exist_ok downloads_dir w1 of
                            (Inl err, w2) \<Rightarrow> (Inl err, w2)
                          | (Inr u, w2) \<Rightarrow>
                              (let archive_path = downloads_dir @ [filename] in
                               case get_response e archive_url w2 of
                                 (None, w3) \<Rightarrow> (Inr None, w3)
                               | (Some response2, w3) \<Rightarrow>
                                   (case write_file archive_path
                                           (response_content response2) w3 of
                                      (Inl err, w4) \<Rightarrow> (Inl err, w4)
                                    | (Inr u2, w4) \<Rightarrow>
                                        (Inr None,
                                         w4\<lparr>log := log w4 @ [Archive_saved archive_path]\<rparr>))))))))"

subsection \<open>\<open>pep\<close>\<close>

text \<open>
  The status on a card: \<open>dl_tag.find(string="Status").parent\<close>, then
  \<open>find_next_sibling("dd").text\<close>. Reading \<open>.parent\<close> or \<open>.text\<close> of \<open>None\<close> raises
  \<open>AttributeError\<close>.
\<close>

definition status_pep_card :: "element \<Rightarrow> error + unicode" where
  "status_pep_card dl_tag =
     (case find_string dl_tag (str ''Status'') of
        None \<Rightarrow> Inl AttributeError
      | Some label \<Rightarrow>
          (case parent label of
             None \<Rightarrow> Inl AttributeError
           | Some status_name \<Rightarrow>
               (case find_next_sibling status_name (str ''dd'') of
                  None \<Rightarrow> Inl AttributeError
                | Some dd \<Rightarrow> Inr (get_text (fst dd)))))"

text \<open>
  The body of the loop over the numeric cells: the address of the card (lines 126 and
  127) and, once the card is fetched, its status (lines 132 to 134).
\<close>

definition pep_card_url :: "env \<Rightarrow> element \<Rightarrow> error + unicode" where
  "pep_card_url e tag =
     (case find_tag tag (str ''a'') [] of
        Inl err \<Rightarrow> Inl err
      | Inr a_tag \<Rightarrow>
          (case tag_get (fst a_tag) (str ''href'') of
             None \<Rightarrow> Inl (KeyError (str ''href''))
           | Some href \<Rightarrow> Inr (urljoin e (PEP_URL e) href)))"

definition card_status :: "element \<Rightarrow> error + unicode" where
  "card_status soup =
     (case find_tag soup (str ''dl'') [((str ''class''), Equals (str ''rfc2822 field-list simple''))] of
        Inl err \<Rightarrow> Inl err
      | Inr dl_tag \<Rightarrow> status_pep_card dl_tag)"

text \<open>The loop, with the statuses collected so far.\<close>

fun pep_loop ::
  "env \<Rightarrow> element list \<Rightarrow> unicode list \<Rightarrow> world \<Rightarrow> (error + unicode list) \<times> world"
where
  "pep_loop e [] results w = (Inr results, w)"
| "pep_loop e (tag # tags) results w =
     (case pep_card_url e tag of
        Inl err \<Rightarrow> (Inl err, w)
      | Inr url \<Rightarrow>
          (case get_response e url w of
             (None, w1) \<Rightarrow> pep_loop e tags results w1
           | (Some response, w1) \<Rightarrow>
               (case card_status (soup_of e response) of
                  Inl err \<Rightarrow> (Inl err, w1)
                | Inr status \<Rightarrow> pep_loop e tags (results @ [status]) w1)))"

text \<open>
  \<open>Counter(results)\<close>: the number of occurrences of each status, the keys in the order
  of their first occurrence.
\<close>

fun counter_add :: "unicode \<Rightarrow> (unicode \<times> int) list \<Rightarrow> (unicode \<times> int) list" where
  "counter_add s [] = [(s, 1)]"
| "counter_add s ((k, c) # kcs) =
     (if k = s then (k, c + 1) # kcs else (k, c) # counter_add s kcs)"

definition Counter :: "unicode list \<Rightarrow> (unicode \<times> int) list" where
  "Counter results = foldl (\<lambda>counter s. counter_add s counter) [] results"

definition expected_statuses :: "env \<Rightarrow> unicode list" where
  "expected_statuses e = concat (map snd (EXPECTED_STATUS e))"

text \<open>The loop over \<open>counter.items()\<close>, with the table and the total (\<open>total_n\<close>) so far.\<close>

fun pep_count ::
  "env \<Rightarrow> (unicode \<times> int) list \<Rightarrow> row list \<Rightarrow> int \<Rightarrow> world \<Rightarrow> (row list \<times> int) \<times> world"
where
  "pep_count e [] resulting_table total_n w = ((resulting_table, total_n), w)"
| "pep_count e ((status, count) # items) resulting_table total_n w =
     (if status \<notin> set (expected_statuses e) then
        pep_count e items resulting_table total_n (w\<lparr>log := log w @ [Status_mismatch status]\<rparr>)
      else pep_count e items (resulting_table @ [[S status, N count]]) (total_n + count) w)"

text \<open>Lines 137 to 153: the table of the statuses collected.\<close>

definition pep_table :: "env \<Rightarrow> unicode list \<Rightarrow> world \<Rightarrow> row list \<times> world" where
  "pep_table e results w =
     (case pep_count e (Counter results) [[S (str ''Status''), S (str ''Quantity'')]] 0 w of
        ((resulting_table, total_n), w1) \<Rightarrow> (resulting_table @ [[S (str ''Total''), N total_n]], w1))"

text \<open>Lines 116 to 135: the statuses of the cards, \<open>None\<close> for the early \<open>return\<close>.\<close>

definition pep_results :: "env \<Rightarrow> world \<Rightarrow> (error + unicode list option) \<times> world" where
  "pep_results e w =
     (case get_response e (PEP_URL e) w of
        (None, w1) \<Rightarrow> (Inr None, w1)
      | (Some response, w1) \<Rightarrow>
          (case find_tag (soup_of e response) (str ''section'') [((str ''id''), Equals (str ''numerical-index''))] of
             Inl err \<Rightarrow> (Inl err, w1)
           | Inr table_index \<Rightarrow>
               (case find_tag table_index (str ''tbody'') [] of
                  Inl err \<Rightarrow> (Inl err, w1)
                | Inr tbody_tag \<Rightarrow>
                    (case pep_loop e (find_all_string tbody_tag (str ''td'') (Regex Digits)) [] w1 of
                       (Inl err, w2) \<Rightarrow> (Inl err, w2)
                     | (Inr results, w2) \<Rightarrow> (Inr (Some results), w2)))))"

definition pep :: "env \<Rightarrow> world \<Rightarrow> result" where
  "pep e w =
     (case pep_results e w of
        (Inl err, w1) \<Rightarrow> (Inl err, w1)
      | (Inr None, w1) \<Rightarrow> (Inr None, w1)
      | (Inr (Some results), w1) \<Rightarrow>
          (case pep_table e results w1 of (table, w2) \<Rightarrow> (Inr (Some table), w2)))"

subsection \<open>The driver\<close>

fun MODE_TO_FUNCTION :: "mode \<Rightarrow> env \<Rightarrow> world \<Rightarrow> result" where
  "MODE_TO_FUNCTION Whats_new = whats_new"
| "MODE_TO_FUNCTION Latest_versions = latest_versions"
| "MODE_TO_FUNCTION Download = download"
| "MODE_TO_FUNCTION Pep = pep"

text \<open>
  \<open>main\<close> catches nothing: an exception of the handler ends the run before the output
  and before the closing log line.
\<close>

definition main :: "env \<Rightarrow> args \<Rightarrow> world \<Rightarrow> (error + unit) \<times> world" where
  "main e a w =
     (case MODE_TO_FUNCTION (args_mode a) e (w\<lparr>log := log w @ [Parser_started, Arguments a]\<rparr>) of
        (Inl err, w1) \<Rightarrow> (Inl err, w1)
      | (Inr None, w1) \<Rightarrow> (Inr (), w1\<lparr>log := log w1 @ [Parser_finished]\<rparr>)
      | (Inr (Some results), w1) \<Rightarrow>
          (case control_output e results a w1 of
             (Inl err, w2) \<Rightarrow> (Inl err, w2)
           | (Inr u, w2) \<Rightarrow> (Inr (), w2\<lparr>log := log w2 @ [Parser_finished]\<rparr>)))"

section \<open>Notions used in the statements\<close>

text \<open>
  The outcome of one pass of a loop body is an exception, nothing (\<open>continue\<close>) or
  the item appended. \<open>collect\<close> runs the outcomes in order as the loops do: it stops
  at the first exception and appends the items to what was collected before.
\<close>

fun collect :: "(error + 'a option) list \<Rightarrow> 'a list \<Rightarrow> error + 'a list" where
  "collect [] acc = Inr acc"
| "collect (Inl err # outcomes) acc = Inl err"
| "collect (Inr None # outcomes) acc = collect outcomes acc"
| "collect (Inr (Some x) # outcomes) acc = collect outcomes (acc @ [x])"

definition whats_new_step :: "env \<Rightarrow> unicode \<Rightarrow> element \<Rightarrow> error + row option" where
  "whats_new_step e whats_new_url sec =
     (case version_link e whats_new_url sec of
        Inl err \<Rightarrow> Inl err
      | Inr link \<Rightarrow>
          (case session_get e link of
             None \<Rightarrow> Inr None
           | Some response \<Rightarrow>
               (case article_row link (soup_of e response) of
                  Inl err \<Rightarrow> Inl err
                | Inr row \<Rightarrow> Inr (Some row))))"

definition pep_step :: "env \<Rightarrow> element \<Rightarrow> error + unicode option" where
  "pep_step e tag =
     (case pep_card_url e tag of
        Inl err \<Rightarrow> Inl err
      | Inr url \<Rightarrow>
          (case session_get e url of
             None \<Rightarrow> Inr None
           | Some response \<Rightarrow>
               (case card_status (soup_of e response) of
                  Inl err \<Rightarrow> Inl err
                | Inr status \<Rightarrow> Inr (Some status))))"

text \<open>The items of a list of outcomes, for a list without an exception.\<close>

fun items_of :: "(error + 'a option) list \<Rightarrow> 'a list" where
  "items_of [] = []"
| "items_of (Inr (Some x) # outcomes) = x # items_of outcomes"
| "items_of (outcome # outcomes) = items_of outcomes"

text \<open>The rows of the \<open>pep\<close> table: a tallied status is accepted when the registry has it.\<close>

definition accepted :: "env \<Rightarrow> unicode \<times> int \<Rightarrow> bool" where
  "accepted e item = (fst item \<in> set (expected_statuses e))"

definition status_row :: "unicode \<times> int \<Rightarrow> row" where
  "status_row item = [S (fst item), N (snd item)]"

fun row_count :: "row \<Rightarrow> int" where
  "row_count [S s, N c] = c"
| "row_count r = 0"

definition count_of :: "(unicode \<times> int) list \<Rightarrow> unicode \<Rightarrow> int" where
  "count_of kcs s = (case map_of kcs s of None \<Rightarrow> 0 | Some c \<Rightarrow> c)"

text \<open>The row of \<open>latest_versions\<close> for a link with an address.\<close>

definition version_row :: "unicode \<Rightarrow> unicode \<Rightarrow> row" where
  "version_row link txt = [S link, S (fst (version_status txt)), S (snd (version_status txt))]"





section \<open>Example pages\<close>

text \<open>
  A small site to run the handlers on: the index of the PEPs with three numbered
  cells, the cards of the PEPs, the what's-new page with three articles, the main page
  with its sidebar and the downloads page. The example parser maps the text of a
  response to its tree, and the example \<open>urljoin\<close> puts a relative address in the place of
  what follows the last slash of the base.
\<close>

definition index_row :: "unicode \<Rightarrow> unicode \<Rightarrow> node" where
  "index_row num href =
     Tag (str ''tr'') []
       [Tag (str ''td'') [] [Tag (str ''abbr'') [] [NavigableString (str ''I'')]],
        Tag (str ''td'') [] [Tag (str ''a'') [((str ''href''), href)] [NavigableString num]],
        Tag (str ''td'') [] [Tag (str ''a'') [((str ''href''), href)] [NavigableString (str ''A title'')]]]"

definition example_index :: node where
  "example_index =
     Tag (str ''[document]'') []
       [Tag (str ''section'') [((str ''id''), (str ''numerical-index''))]
          [Tag (str ''table'') [((str ''class''), (str ''pep-zero-table docutils''))]
             [Tag (str ''thead'') [] [Tag (str ''tr'') [] [Tag (str ''th'') [] [NavigableString (str ''PEP'')]]],
              Tag (str ''tbody'') []
                [index_row (str ''1'') (str ''pep-0001/''),
                 index_row (str ''8'') (str ''pep-0008/''),
                 index_row (str ''20'') (str ''pep-0020/'')]]]]"

definition example_card :: "unicode \<Rightarrow> unicode \<Rightarrow> node" where
  "example_card label status =
     Tag (str ''[document]'') []
       [Tag (str ''h1'') [] [NavigableString (str ''PEP'')],
        Tag (str ''dl'') [((str ''class''), (str ''rfc2822 field-list simple''))]
          [Tag (str ''dt'') [] [NavigableString (str ''Author''), Tag (str ''span'') [] [NavigableString (str '':'')]],
           Tag (str ''dd'') [] [NavigableString (str ''Somebody'')],
           Tag (str ''dt'') [] [NavigableString label, Tag (str ''span'') [] [NavigableString (str '':'')]],
           NavigableString [newline],
           Tag (str ''dd'') [] [Tag (str ''abbr'') [] [NavigableString status]]]]"

definition example_whatsnew :: node where
  "example_whatsnew =
     Tag (str ''[document]'') []
       [Tag (str ''section'') [((str ''id''), (str ''what-s-new-in-python''))]
          [Tag (str ''h1'') [] [NavigableString (str ''News'')],
           Tag (str ''div'') [((str ''class''), (str ''toctree-wrapper compound''))]
             [Tag (str ''ul'') []
                [Tag (str ''li'') [((str ''class''), (str ''toctree-l1''))]
                   [Tag (str ''a'') [((str ''href''), (str ''3.12.html''))] [NavigableString (str ''3.12'')]],
                 Tag (str ''li'') [((str ''class''), (str ''toctree-l1''))]
                   [Tag (str ''a'') [((str ''href''), (str ''3.11.html''))] [NavigableString (str ''3.11'')]],
                 Tag (str ''li'') [((str ''class''), (str ''toctree-l1''))]
                   [Tag (str ''a'') [((str ''href''), (str ''3.10.html''))] [NavigableString (str ''3.10'')]]]]]]"

definition example_article :: "unicode \<Rightarrow> node" where
  "example_article title =
     Tag (str ''[document]'') []
       [Tag (str ''h1'') [] [NavigableString title],
        Tag (str ''dl'') []
          [Tag (str ''dt'') [] [NavigableString (str ''Editor'')],
           NavigableString [newline],
           Tag (str ''dd'') [] [NavigableString (str ''Ann'')]]]"

definition example_main :: node where
  "example_main =
     Tag (str ''[document]'') []
       [Tag (str ''div'') [((str ''class''), (str ''sphinxsidebarwrapper''))]
          [Tag (str ''ul'') [] [Tag (str ''li'') [] [Tag (str ''a'') [((str ''href''), (str ''download.html''))] [NavigableString (str ''Download'')]]],
           Tag (str ''ul'') []
             [Tag (str ''li'') [] [Tag (str ''a'') [((str ''href''), (str ''/3.13/''))] [NavigableString (str ''Python 3.13 (in development)'')]],
              Tag (str ''li'') [] [Tag (str ''a'') [((str ''href''), (str ''/3.12/''))] [NavigableString (str ''Python 3.12 (stable)'')]],
              Tag (str ''li'') [] [Tag (str ''a'') [((str ''href''), (str ''/versions/''))] [NavigableString (str ''All versions'')]]]]]"

definition example_main_later :: node where
  "example_main_later =
     Tag (str ''[document]'') []
       [Tag (str ''div'') [(str ''class'', str ''sphinxsidebarwrapper'')]
          [Tag (str ''ul'') []
             [Tag (str ''li'') [] [Tag (str ''a'') [(str ''href'', str ''/10.1/'')] [NavigableString (str ''Python 10.1 (stable)'')]],
              Tag (str ''li'') []
                [Tag (str ''a'') [(str ''href'', str ''/3.12/'')]
                   [NavigableString (str ''Python '' @ [65299, 46, 65297, 65298] @ str '' (stable)'')]],
              Tag (str ''li'') [] [Tag (str ''a'') [(str ''href'', str ''/versions/'')] [NavigableString (str ''All versions'')]]]]]"

definition example_downloads :: node where
  "example_downloads =
     Tag (str ''[document]'') []
       [Tag (str ''table'') [((str ''class''), (str ''docutils''))]
          [Tag (str ''tr'') []
             [Tag (str ''td'') [] [Tag (str ''a'') [((str ''href''), (str ''archives/archive-3.12.pdf-letter.zip''))] [NavigableString (str ''Download'')]],
              Tag (str ''td'') [] [Tag (str ''a'') [((str ''href''), (str ''archives/archive-3.12.pdf-a4.zip''))] [NavigableString (str ''Download'')]]]]]"

definition example_parser :: "unicode \<Rightarrow> node" where
  "example_parser s =
     (if s = (str ''index'') then example_index
      else if s = (str ''card Active'') then example_card (str ''Status'') (str ''Active'')
      else if s = (str ''card Final'') then example_card (str ''Status'') (str ''Final'')
      else if s = (str ''card unlabelled'') then example_card (str ''State'') (str ''Final'')
      else if s = (str ''whatsnew'') then example_whatsnew
      else if s = (str ''article 3.12'') then example_article (str ''What is new in 3.12'')
      else if s = (str ''article 3.10'') then example_article (str ''What is new in 3.10'')
      else if s = (str ''main'') then example_main
      else if s = (str ''main later'') then example_main_later
      else if s = (str ''main bare'') then
        Tag (str ''[document]'') [] [Tag (str ''div'') [((str ''class''), (str ''sphinxsidebarwrapper''))]
          [Tag (str ''ul'') [] [Tag (str ''li'') [] [NavigableString (str ''Download'')]]]]
      else if s = (str ''downloads'') then example_downloads
      else Tag (str ''[document]'') [] [NavigableString s])"

definition page :: "string \<Rightarrow> response option" where
  "page s = Some \<lparr>response_text = str s, response_content = s\<rparr>"

definition example_server :: "unicode \<Rightarrow> response option" where
  "example_server url =
     (if url = (str ''peps/'') then page ''index''
      else if url = (str ''peps/pep-0001/'') then page ''card Active''
      else if url = (str ''peps/pep-0008/'') then page ''card Final''
      else if url = (str ''peps/pep-0020/'') then page ''card Final''
      else if url = (str ''docs/'') then page ''main''
      else if url = (str ''docs/whatsnew/'') then page ''whatsnew''
      else if url = (str ''docs/whatsnew/3.12.html'') then page ''article 3.12''
      else if url = (str ''docs/whatsnew/3.10.html'') then page ''article 3.10''
      else if url = (str ''docs/download.html'') then page ''downloads''
      else if url = (str ''docs/archives/archive-3.12.pdf-a4.zip'') then page ''PK archive''
      else None)"

definition example_urljoin :: "unicode \<Rightarrow> unicode \<Rightarrow> unicode" where
  "example_urljoin base url = rev (dropWhile (\<lambda>c. c \<noteq> (cp CHR ''/'')) (rev base)) @ url"

definition example_env :: env where
  "example_env =
     \<lparr>MAIN_DOC_URL = (str ''docs/''),
      PEP_URL = (str ''peps/''),
      BASE_DIR = [(str ''srv''), (str ''src'')],
      EXPECTED_STATUS = [((str ''A''), [(str ''Active''), (str ''Accepted'')]), ((str ''F''), [(str ''Final'')])],
      urljoin = example_urljoin,
      BeautifulSoup = example_parser,
      session_get = example_server,
      control_output = (\<lambda>rows a w. (Inr (), w))\<rparr>"

definition example_world :: world where
  "example_world =
     \<lparr>requests = [], dirs = {[], [(str ''srv'')], [(str ''srv''), (str ''src'')]}, files = Map.empty, log = []\<rparr>"





text \<open>The same site with an archive that cannot be fetched.\<close>

definition archiveless_server :: "unicode \<Rightarrow> response option" where
  "archiveless_server url =
     (if url = str ''docs/archives/archive-3.12.pdf-a4.zip'' then None else example_server url)"

definition archiveless_env :: env where
  "archiveless_env = example_env\<lparr>session_get := archiveless_server\<rparr>"

section \<open>Properties\<close>

subsection \<open>Literals\<close>

lemma cp_eq_iff [simp]: "cp a = cp b \<longleftrightarrow> a = b"
  by (simp add: cp_def)

lemma str_Nil [simp]: "str [] = []"
  by (simp add: str_def)


lemma str_eq_iff [simp]: "str a = str b \<longleftrightarrow> a = b"
  by (simp add: str_def inj_def)

lemma str_eq_Nil [simp]: "str a = [] \<longleftrightarrow> a = []"
  by (simp add: str_def)



subsection \<open>Loops and outcomes\<close>

lemma collect_append:
  "collect (xs @ ys) acc = (case collect xs acc of Inl err \<Rightarrow> Inl err | Inr acc' \<Rightarrow> collect ys acc')"
  by (induction xs acc rule: collect.induct) simp_all

lemma collect_no_exception:
  "list_all (\<lambda>x. \<not> isl x) xs \<Longrightarrow> collect xs acc = Inr (acc @ items_of xs)"
  by (induction xs acc rule: collect.induct) simp_all

lemma collect_all_skipped:
  "list_all (\<lambda>x. x = Inr None) xs \<Longrightarrow> collect xs acc = Inr acc"
  by (induction xs acc rule: collect.induct) simp_all

lemma get_response_fst: "fst (get_response e url w) = session_get e url"
  by (simp add: get_response_def split: option.splits)

lemma pep_loop_collect: "fst (pep_loop e tags results w) = collect (map (pep_step e) tags) results"
proof (induction tags arbitrary: results w)
  case Nil
  then show ?case by simp
next
  case (Cons tag tags)
  show ?case
  proof (cases "pep_card_url e tag")
    case (Inl err)
    then show ?thesis by (simp add: pep_step_def)
  next
    case (Inr url)
    show ?thesis
    proof (cases "session_get e url")
      case None
      then show ?thesis
        using Inr Cons.IH by (simp add: pep_step_def get_response_def)
    next
      case (Some response)
      then show ?thesis
        using Inr Cons.IH
        by (cases "card_status (soup_of e response)") (simp_all add: pep_step_def get_response_def)
    qed
  qed
qed

lemma whats_new_loop_collect:
  "fst (whats_new_loop e url secs result w) = collect (map (whats_new_step e url) secs) result"
proof (induction secs arbitrary: result w)
  case Nil
  then show ?case by simp
next
  case (Cons sec secs)
  show ?case
  proof (cases "version_link e url sec")
    case (Inl err)
    then show ?thesis by (simp add: whats_new_step_def)
  next
    case (Inr link)
    show ?thesis
    proof (cases "session_get e link")
      case None
      then show ?thesis
        using Inr Cons.IH by (simp add: whats_new_step_def get_response_def)
    next
      case (Some response)
      then show ?thesis
        using Inr Cons.IH
        by (cases "article_row link (soup_of e response)")
           (simp_all add: whats_new_step_def get_response_def)
    qed
  qed
qed

subsection \<open>The tally\<close>

lemma counter_add_keys: "fst ` set (counter_add s kcs) = insert s (fst ` set kcs)"
proof (induction kcs)
  case Nil
  then show ?case by simp
next
  case (Cons kc kcs)
  obtain k c where kc: "kc = (k, c)" by (cases kc)
  show ?case
  proof (cases "k = s")
    case True
    then show ?thesis by (simp add: kc)
  next
    case False
    then show ?thesis by (simp add: kc Cons.IH insert_commute)
  qed
qed

lemma counter_add_distinct: "distinct (map fst kcs) \<Longrightarrow> distinct (map fst (counter_add s kcs))"
proof (induction kcs)
  case Nil
  then show ?case by simp
next
  case (Cons kc kcs)
  obtain k c where kc: "kc = (k, c)" by (cases kc)
  show ?case
  proof (cases "k = s")
    case True
    with Cons.prems kc show ?thesis by simp
  next
    case False
    have "k \<notin> fst ` set (counter_add s kcs)"
      using Cons.prems kc False by (simp add: counter_add_keys)
    with Cons kc False show ?thesis by simp
  qed
qed

lemma counter_add_map_of:
  "map_of (counter_add s kcs) k =
     (if k = s then Some (case map_of kcs s of None \<Rightarrow> 1 | Some c \<Rightarrow> c + 1) else map_of kcs k)"
  by (induction kcs) auto

lemma count_of_counter_add:
  "count_of (counter_add s kcs) k = count_of kcs k + (if k = s then 1 else 0)"
  by (simp add: count_of_def counter_add_map_of split: option.splits)

lemma Counter_foldl_keys:
  "fst ` set (foldl (\<lambda>counter s. counter_add s counter) acc rs) = fst ` set acc \<union> set rs"
  by (induction rs arbitrary: acc) (auto simp: counter_add_keys)

lemma Counter_foldl_distinct:
  "distinct (map fst acc) \<Longrightarrow>
     distinct (map fst (foldl (\<lambda>counter s. counter_add s counter) acc rs))"
  by (induction rs arbitrary: acc) (auto simp: counter_add_distinct)

lemma Counter_foldl_count:
  "count_of (foldl (\<lambda>counter s. counter_add s counter) acc rs) k =
     count_of acc k + int (count_list rs k)"
  by (induction rs arbitrary: acc) (auto simp: count_of_counter_add)

lemma Counter_keys: "fst ` set (Counter rs) = set rs"
  by (simp add: Counter_def Counter_foldl_keys)

lemma Counter_distinct: "distinct (map fst (Counter rs))"
  by (simp add: Counter_def Counter_foldl_distinct)

lemma Counter_count_of: "count_of (Counter rs) k = int (count_list rs k)"
  using Counter_foldl_count[of "[]" rs k] by (simp add: Counter_def count_of_def)

lemma Counter_member:
  "(s, c) \<in> set (Counter rs) \<longleftrightarrow> s \<in> set rs \<and> c = int (count_list rs s)"
proof
  assume m: "(s, c) \<in> set (Counter rs)"
  then have "map_of (Counter rs) s = Some c"
    using Counter_distinct by simp
  then have "count_of (Counter rs) s = c" by (simp add: count_of_def)
  with m Counter_keys[of rs] show "s \<in> set rs \<and> c = int (count_list rs s)"
    by (force simp: Counter_count_of)
next
  assume a: "s \<in> set rs \<and> c = int (count_list rs s)"
  then have "s \<in> fst ` set (Counter rs)" by (simp add: Counter_keys)
  then obtain c' where m: "(s, c') \<in> set (Counter rs)" by auto
  then have "map_of (Counter rs) s = Some c'" using Counter_distinct by simp
  then have "count_of (Counter rs) s = c'" by (simp add: count_of_def)
  with a m show "(s, c) \<in> set (Counter rs)" by (simp add: Counter_count_of)
qed

lemma counter_add_sum:
  "sum_list (map snd (filter (\<lambda>i. P (fst i)) (counter_add s kcs))) =
     sum_list (map snd (filter (\<lambda>i. P (fst i)) kcs)) + (if P s then 1 else 0)"
  by (induction kcs) auto

lemma Counter_foldl_sum:
  "sum_list (map snd (filter (\<lambda>i. P (fst i)) (foldl (\<lambda>counter s. counter_add s counter) acc rs))) =
     sum_list (map snd (filter (\<lambda>i. P (fst i)) acc)) + int (length (filter P rs))"
  by (induction rs arbitrary: acc) (auto simp: counter_add_sum)

lemma Counter_sum:
  "sum_list (map snd (filter (\<lambda>i. P (fst i)) (Counter rs))) = int (length (filter P rs))"
  by (simp add: Counter_def Counter_foldl_sum)

lemma accepted_sum:
  "sum_list (map snd (filter (accepted e) (Counter rs))) =
     int (length (filter (\<lambda>s. s \<in> set (expected_statuses e)) rs))"
  using Counter_sum[of "\<lambda>s. s \<in> set (expected_statuses e)" rs]
  by (simp add: accepted_def[abs_def])

lemma pep_count_eq:
  "pep_count e items table n w =
     ((table @ map status_row (filter (accepted e) items),
       n + sum_list (map snd (filter (accepted e) items))),
      w\<lparr>log := log w @ map (\<lambda>i. Status_mismatch (fst i)) (filter (\<lambda>i. \<not> accepted e i) items)\<rparr>)"
proof (induction items arbitrary: table n w)
  case Nil
  then show ?case by simp
next
  case (Cons i items)
  obtain s c where i: "i = (s, c)" by (cases i)
  show ?case
    unfolding i by (simp add: Cons.IH accepted_def status_row_def)
qed

lemma pep_table_eq:
  "pep_table e rs w =
     ([S (str ''Status''), S (str ''Quantity'')] # map status_row (filter (accepted e) (Counter rs))
        @ [[S (str ''Total''), N (sum_list (map snd (filter (accepted e) (Counter rs))))]],
      w\<lparr>log := log w @ map (\<lambda>i. Status_mismatch (fst i))
                          (filter (\<lambda>i. \<not> accepted e i) (Counter rs))\<rparr>)"
  by (simp add: pep_table_def pep_count_eq)

lemma pep_of_results:
  "fst (pep_results e w) = Inr (Some rs) \<Longrightarrow>
     pep e w = (Inr (Some (fst (pep_table e rs (snd (pep_results e w))))),
                snd (pep_table e rs (snd (pep_results e w))))"
  by (cases "pep_results e w") (simp add: pep_def split: prod.splits)

lemma pep_returns_table:
  "fst (pep e w) = Inr (Some table) \<Longrightarrow>
     \<exists>rs. fst (pep_results e w) = Inr (Some rs) \<and> table = fst (pep_table e rs (snd (pep_results e w)))"
  by (cases "pep_results e w")
     (auto simp: pep_def split: prod.splits sum.splits option.splits)

lemma row_count_status_row: "map row_count (map status_row items) = map snd items"
  by (induction items) (auto simp: status_row_def)

lemma example_pep_results:
  "fst (pep_results example_env example_world) = Inr (Some [(str ''Active''), (str ''Final''), (str ''Final'')])"
  by code_simp

subsection \<open>The table of \<open>pep\<close>\<close>

lemma count_list_distinct: "distinct xs \<Longrightarrow> count_list xs x = (if x \<in> set xs then 1 else 0)"
  by (induction xs) auto

lemma status_rows_distinct: "distinct (map status_row (filter (accepted e) (Counter rs)))"
proof -
  have "distinct (Counter rs)"
    using Counter_distinct[of rs] by (rule distinct_map[THEN iffD1, THEN conjunct1])
  then have "distinct (filter (accepted e) (Counter rs))" by simp
  moreover have "inj_on status_row (set (filter (accepted e) (Counter rs)))"
    by (rule inj_onI) (simp add: status_row_def prod_eq_iff)
  ultimately show ?thesis by (simp add: distinct_map)
qed

lemma status_rows_member:
  "[S s, N c] \<in> set (map status_row (filter (accepted e) (Counter rs))) \<longleftrightarrow>
     s \<in> set rs \<and> s \<in> set (expected_statuses e) \<and> c = int (count_list rs s)"
proof -
  have "[S s, N c] \<in> set (map status_row (filter (accepted e) (Counter rs))) \<longleftrightarrow>
          (s, c) \<in> set (Counter rs) \<and> accepted e (s, c)"
    by (force simp: status_row_def image_iff)
  then show ?thesis by (auto simp: Counter_member accepted_def)
qed

lemma mismatch_log:
  "map (\<lambda>i. Status_mismatch (fst i)) (filter (\<lambda>i. \<not> accepted e i) (Counter rs)) =
     map Status_mismatch (filter (\<lambda>s. s \<notin> set (expected_statuses e)) (map fst (Counter rs)))"
  by (simp add: filter_map accepted_def[abs_def] comp_def)

lemma length_filter_sum:
  "int (length (filter P rs)) = (\<Sum>s\<in>{s \<in> set rs. P s}. int (count_list rs s))"
proof -
  have c: "count_list (filter P rs) s = (if P s then count_list rs s else 0)" for s
    by (induction rs) auto
  have "length (filter P rs) = sum (count_list (filter P rs)) (set (filter P rs))"
    by (rule sum_count_set[symmetric]) simp_all
  also have "\<dots> = (\<Sum>s\<in>{s \<in> set rs. P s}. count_list rs s)"
    by (rule sum.cong) (auto simp: c)
  finally show ?thesis by simp
qed

text \<open>
  C1. The count of the final \<open>Total\<close> row of \<open>pep\<close> is the sum of the counts of the
  rows of the accepted statuses, and it is the number of cards whose status is in the
  flattened registry of expected statuses. For three cards with the statuses
  \<open>Active\<close>, \<open>Final\<close>, \<open>Final\<close>, all expected, the table is the header, \<open>(Active, 1)\<close>,
  \<open>(Final, 2)\<close> and \<open>(Total, 3)\<close>.
\<close>

theorem pep_total_row:
  assumes "fst (pep_results e w) = Inr (Some results)"
  shows "\<exists>rows.
           fst (pep e w) =
             Inr (Some ([S (str ''Status''), S (str ''Quantity'')] # rows
                          @ [[S (str ''Total''), N (sum_list (map row_count rows))]])) \<and>
           rows = map status_row (filter (accepted e) (Counter results)) \<and>
           sum_list (map row_count rows) =
             int (length (filter (\<lambda>s. s \<in> set (expected_statuses e)) results)) \<and>
           (results = [(str ''Active''), (str ''Final''), (str ''Final'')] \<and>
            (str ''Active'') \<in> set (expected_statuses e) \<and> (str ''Final'') \<in> set (expected_statuses e) \<longrightarrow>
              fst (pep e w) =
                Inr (Some [[S (str ''Status''), S (str ''Quantity'')], [S (str ''Active''), N 1],
                           [S (str ''Final''), N 2], [S (str ''Total''), N 3]]))"
proof -
  let ?rows = "map status_row (filter (accepted e) (Counter results))"
  have sum: "sum_list (map row_count ?rows) = sum_list (map snd (filter (accepted e) (Counter results)))"
    by (simp only: row_count_status_row)
  have table: "fst (pep e w) =
      Inr (Some ([S (str ''Status''), S (str ''Quantity'')] # ?rows
                   @ [[S (str ''Total''), N (sum_list (map row_count ?rows))]]))"
    unfolding sum using pep_of_results[OF assms] by (simp add: pep_table_eq)
  have total: "sum_list (map row_count ?rows) =
      int (length (filter (\<lambda>s. s \<in> set (expected_statuses e)) results))"
    unfolding sum by (rule accepted_sum)
  have concrete: "fst (pep e w) =
      Inr (Some [[S (str ''Status''), S (str ''Quantity'')], [S (str ''Active''), N 1],
                 [S (str ''Final''), N 2], [S (str ''Total''), N 3]])"
    if "results = [(str ''Active''), (str ''Final''), (str ''Final'')]"
      and "(str ''Active'') \<in> set (expected_statuses e)" and "(str ''Final'') \<in> set (expected_statuses e)"
  proof -
    have "Counter results = [((str ''Active''), 1), ((str ''Final''), 2)]"
      using that(1) by (simp add: Counter_def)
    then have "?rows = [[S (str ''Active''), N 1], [S (str ''Final''), N 2]]"
      using that(2,3) by (simp add: accepted_def status_row_def)
    with table show ?thesis by simp
  qed
  from table total concrete show ?thesis by blast
qed

theorem pep_total_row_witness:
  "fst (pep_results example_env example_world) = Inr (Some [(str ''Active''), (str ''Final''), (str ''Final'')]) \<and>
   fst (pep example_env example_world) =
     Inr (Some [[S (str ''Status''), S (str ''Quantity'')], [S (str ''Active''), N 1],
                [S (str ''Final''), N 2], [S (str ''Total''), N 3]])"
proof -
  have a: "(str ''Active'') \<in> set (expected_statuses example_env)"
    by (simp add: expected_statuses_def example_env_def)
  have f: "(str ''Final'') \<in> set (expected_statuses example_env)"
    by (simp add: expected_statuses_def example_env_def)
  from pep_total_row[OF example_pep_results] a f example_pep_results show ?thesis
    by blast
qed

text \<open>
  C4. In \<open>pep\<close>, every tallied status that is not in the flattened registry of expected
  statuses is logged as a mismatch, has no row between the header and the \<open>Total\<close>
  row, and its count is not in the total; every tallied status that is in the registry
  has exactly one row, with its count, and the total is the sum of the counts of these
  statuses.
\<close>

theorem pep_mismatch_excluded:
  assumes "fst (pep_results e w) = Inr (Some results)"
  shows "\<exists>rows n.
           fst (pep e w) =
             Inr (Some ([S (str ''Status''), S (str ''Quantity'')] # rows @ [[S (str ''Total''), N n]])) \<and>
           log (snd (pep e w)) =
             log (snd (pep_results e w))
               @ map Status_mismatch
                   (filter (\<lambda>s. s \<notin> set (expected_statuses e)) (map fst (Counter results))) \<and>
           (\<forall>s\<in>set results. s \<notin> set (expected_statuses e) \<longrightarrow>
              Status_mismatch s \<in> set (log (snd (pep e w))) \<and> (\<forall>c. [S s, N c] \<notin> set rows)) \<and>
           (\<forall>s\<in>set results. s \<in> set (expected_statuses e) \<longrightarrow>
              count_list rows [S s, N (int (count_list results s))] = 1 \<and>
              (\<forall>c. [S s, N c] \<in> set rows \<longrightarrow> c = int (count_list results s))) \<and>
           n = (\<Sum>s\<in>{s \<in> set results. s \<in> set (expected_statuses e)}.
                  int (count_list results s))"
proof -
  let ?rows = "map status_row (filter (accepted e) (Counter results))"
  let ?n = "sum_list (map snd (filter (accepted e) (Counter results)))"
  have table: "fst (pep e w) =
      Inr (Some ([S (str ''Status''), S (str ''Quantity'')] # ?rows @ [[S (str ''Total''), N ?n]]))"
    using pep_of_results[OF assms] by (simp add: pep_table_eq)
  have lg: "log (snd (pep e w)) =
      log (snd (pep_results e w))
        @ map Status_mismatch
            (filter (\<lambda>s. s \<notin> set (expected_statuses e)) (map fst (Counter results)))"
    using pep_of_results[OF assms] by (simp add: pep_table_eq mismatch_log)
  have rejected: "Status_mismatch s \<in> set (log (snd (pep e w))) \<and> (\<forall>c. [S s, N c] \<notin> set ?rows)"
    if "s \<in> set results" and "s \<notin> set (expected_statuses e)" for s
  proof -
    have "s \<in> set (map fst (Counter results))"
      using that(1) Counter_keys[of results] by simp
    then have "Status_mismatch s \<in> set (log (snd (pep e w)))"
      using that(2) by (simp add: lg)
    moreover have "\<forall>c. [S s, N c] \<notin> set ?rows"
      using that(2) status_rows_member[of s _ e results] by blast
    ultimately show ?thesis by simp
  qed
  have acc: "count_list ?rows [S s, N (int (count_list results s))] = 1 \<and>
             (\<forall>c. [S s, N c] \<in> set ?rows \<longrightarrow> c = int (count_list results s))"
    if "s \<in> set results" and "s \<in> set (expected_statuses e)" for s
  proof -
    have "[S s, N (int (count_list results s))] \<in> set ?rows"
      using that status_rows_member[of s "int (count_list results s)" e results] by blast
    then have "count_list ?rows [S s, N (int (count_list results s))] = 1"
      using count_list_distinct[OF status_rows_distinct[of e results]] by presburger
    moreover have "\<forall>c. [S s, N c] \<in> set ?rows \<longrightarrow> c = int (count_list results s)"
      using status_rows_member[of s _ e results] by blast
    ultimately show ?thesis by simp
  qed
  have total: "?n = (\<Sum>s\<in>{s \<in> set results. s \<in> set (expected_statuses e)}.
                       int (count_list results s))"
    by (simp only: accepted_sum length_filter_sum)
  from table lg rejected acc total show ?thesis by blast
qed

theorem pep_mismatch_excluded_witness:
  "fst (pep_results (example_env\<lparr>EXPECTED_STATUS := [((str ''A''), [(str ''Active'')])]\<rparr>) example_world) =
     Inr (Some [(str ''Active''), (str ''Final''), (str ''Final'')]) \<and>
   Status_mismatch (str ''Final'')
     \<in> set (log (snd (pep (example_env\<lparr>EXPECTED_STATUS := [((str ''A''), [(str ''Active'')])]\<rparr>) example_world)))"
proof -
  let ?e = "example_env\<lparr>EXPECTED_STATUS := [((str ''A''), [(str ''Active'')])]\<rparr>"
  have h: "fst (pep_results ?e example_world) = Inr (Some [(str ''Active''), (str ''Final''), (str ''Final'')])"
    by code_simp
  have r: "(str ''Final'') \<notin> set (expected_statuses ?e)"
    by (simp add: expected_statuses_def)
  from pep_mismatch_excluded[OF h] r h show ?thesis by auto
qed

text \<open>
  C9. When \<open>pep\<close> fetches the index and collects no status, because the index has no
  numeric cell or because the fetch of every card fails, it returns the header row
  followed by \<open>(Total, 0)\<close>; every table \<open>pep\<close> returns starts with the header row and
  ends with the \<open>Total\<close> row.
\<close>

theorem pep_empty_table:
  "(fst (pep_results e w) = Inr (Some []) \<longrightarrow>
      fst (pep e w) = Inr (Some [[S (str ''Status''), S (str ''Quantity'')], [S (str ''Total''), N 0]])) \<and>
   (session_get e (PEP_URL e) = Some response \<and>
    find_tag (soup_of e response) (str ''section'') [((str ''id''), Equals (str ''numerical-index''))] = Inr table_index \<and>
    find_tag table_index (str ''tbody'') [] = Inr tbody_tag \<and>
    list_all (\<lambda>tag. pep_step e tag = Inr None) (find_all_string tbody_tag (str ''td'') (Regex Digits)) \<longrightarrow>
      fst (pep e w) = Inr (Some [[S (str ''Status''), S (str ''Quantity'')], [S (str ''Total''), N 0]])) \<and>
   (fst (pep e w) = Inr (Some table) \<longrightarrow>
      2 \<le> length table \<and> hd table = [S (str ''Status''), S (str ''Quantity'')] \<and>
      (\<exists>n. last table = [S (str ''Total''), N n]))"
proof -
  have empty: "fst (pep e w) = Inr (Some [[S (str ''Status''), S (str ''Quantity'')], [S (str ''Total''), N 0]])"
    if "fst (pep_results e w) = Inr (Some [])"
    using pep_of_results[OF that] by (simp add: pep_table_eq Counter_def)
  have cells: "fst (pep_results e w) = Inr (Some [])"
    if "session_get e (PEP_URL e) = Some response"
      and "find_tag (soup_of e response) (str ''section'') [((str ''id''), Equals (str ''numerical-index''))] = Inr table_index"
      and "find_tag table_index (str ''tbody'') [] = Inr tbody_tag"
      and "list_all (\<lambda>tag. pep_step e tag = Inr None) (find_all_string tbody_tag (str ''td'') (Regex Digits))"
  proof -
    let ?cells = "find_all_string tbody_tag (str ''td'') (Regex Digits)"
    let ?w1 = "w\<lparr>requests := requests w @ [PEP_URL e]\<rparr>"
    have "list_all (\<lambda>x. x = Inr None) (map (pep_step e) ?cells)"
      using that(4) by (simp add: list_all_iff)
    then have "fst (pep_loop e ?cells [] ?w1) = Inr []"
      by (simp only: pep_loop_collect collect_all_skipped)
    then show ?thesis
      using that(1,2,3)
      by (cases "pep_loop e ?cells [] ?w1") (simp add: pep_results_def get_response_def)
  qed
  have shape: "2 \<le> length table \<and> hd table = [S (str ''Status''), S (str ''Quantity'')] \<and>
               (\<exists>n. last table = [S (str ''Total''), N n])"
    if "fst (pep e w) = Inr (Some table)"
    using pep_returns_table[OF that] by (auto simp: pep_table_eq)
  from empty cells shape show ?thesis by blast
qed

theorem pep_empty_table_witness:
  "fst (pep (example_env\<lparr>session_get := (\<lambda>url. if url = (str ''peps/'') then page ''index'' else None)\<rparr>)
          example_world) =
     Inr (Some [[S (str ''Status''), S (str ''Quantity'')], [S (str ''Total''), N 0]])"
proof -
  let ?e = "example_env\<lparr>session_get := (\<lambda>url. if url = (str ''peps/'') then page ''index'' else None)\<rparr>"
  let ?r = "\<lparr>response_text = (str ''index''), response_content = ''index''\<rparr>"
  let ?ti = "projr (find_tag (soup_of ?e ?r) (str ''section'') [((str ''id''), Equals (str ''numerical-index''))])"
  let ?tb = "projr (find_tag ?ti (str ''tbody'') [])"
  have h1: "session_get ?e (PEP_URL ?e) = Some ?r"
    by (simp add: example_env_def page_def)
  have h2: "find_tag (soup_of ?e ?r) (str ''section'') [((str ''id''), Equals (str ''numerical-index''))] = Inr ?ti"
    by code_simp
  have h3: "find_tag ?ti (str ''tbody'') [] = Inr ?tb"
    by code_simp
  have h4: "list_all (\<lambda>tag. pep_step ?e tag = Inr None) (find_all_string ?tb (str ''td'') (Regex Digits))"
    by code_simp
  have h5: "find_all_string ?tb (str ''td'') (Regex Digits) \<noteq> []"
    by code_simp
  from pep_empty_table[of ?e example_world ?r ?ti ?tb] h1 h2 h3 h4 show ?thesis
    by blast
qed

subsection \<open>Failures inside the loops\<close>

lemma items_of_append: "items_of (xs @ ys) = items_of xs @ items_of ys"
  by (induction xs rule: items_of.induct) simp_all


lemma no_exception_map:
  "list_all (\<lambda>s. \<not> isl (f s)) xs \<Longrightarrow> list_all (\<lambda>x. \<not> isl x) (map f xs)"
  by (induction xs) simp_all

lemma collect_skip:
  "collect (xs @ Inr None # ys) acc = collect (xs @ ys) acc"
  by (simp add: collect_append split: sum.splits)

lemma whats_new_value:
  assumes "session_get e (urljoin e (MAIN_DOC_URL e) (str ''whatsnew/'')) = Some response"
    and "find_tag (soup_of e response) (str ''section'') [((str ''id''), Equals (str ''what-s-new-in-python''))] = Inr main_div"
    and "find_tag main_div (str ''div'') [((str ''class''), Equals (str ''toctree-wrapper''))] = Inr div_with_ul"
  shows "fst (whats_new e w) =
           (case collect (map (whats_new_step e (urljoin e (MAIN_DOC_URL e) (str ''whatsnew/'')))
                            (find_all div_with_ul (str ''li'') [((str ''class''), Equals (str ''toctree-l1''))]))
                   [whats_new_header] of
              Inl err \<Rightarrow> Inl err
            | Inr table \<Rightarrow> Inr (Some table))"
proof -
  let ?url = "urljoin e (MAIN_DOC_URL e) (str ''whatsnew/'')"
  let ?w1 = "w\<lparr>requests := requests w @ [?url]\<rparr>"
  let ?secs = "find_all div_with_ul (str ''li'') [((str ''class''), Equals (str ''toctree-l1''))]"
  have "fst (whats_new e w) =
          (case fst (whats_new_loop e ?url ?secs [whats_new_header] ?w1) of
             Inl err \<Rightarrow> Inl err
           | Inr table \<Rightarrow> Inr (Some table))"
    using assms
    by (cases "whats_new_loop e ?url ?secs [whats_new_header] ?w1")
       (simp add: whats_new_def get_response_def split: sum.splits)
  then show ?thesis by (simp only: whats_new_loop_collect)
qed

lemma pep_results_value:
  assumes "session_get e (PEP_URL e) = Some response"
    and "find_tag (soup_of e response) (str ''section'') [((str ''id''), Equals (str ''numerical-index''))] = Inr table_index"
    and "find_tag table_index (str ''tbody'') [] = Inr tbody_tag"
  shows "fst (pep_results e w) =
           (case collect (map (pep_step e) (find_all_string tbody_tag (str ''td'') (Regex Digits))) [] of
              Inl err \<Rightarrow> Inl err
            | Inr results \<Rightarrow> Inr (Some results))"
proof -
  let ?w1 = "w\<lparr>requests := requests w @ [PEP_URL e]\<rparr>"
  let ?cells = "find_all_string tbody_tag (str ''td'') (Regex Digits)"
  have "fst (pep_results e w) =
          (case fst (pep_loop e ?cells [] ?w1) of
             Inl err \<Rightarrow> Inl err
           | Inr results \<Rightarrow> Inr (Some results))"
    using assms
    by (cases "pep_loop e ?cells [] ?w1")
       (simp add: pep_results_def get_response_def split: sum.splits)
  then show ?thesis by (simp only: pep_loop_collect)
qed

lemma pep_raises: "fst (pep_results e w) = Inl err \<Longrightarrow> fst (pep e w) = Inl err"
  by (cases "pep_results e w") (simp add: pep_def)

lemma main_raises:
  "fst (MODE_TO_FUNCTION (args_mode a) e (w\<lparr>log := log w @ [Parser_started, Arguments a]\<rparr>)) = Inl err \<Longrightarrow>
     fst (main e a w) = Inl err"
  by (cases "MODE_TO_FUNCTION (args_mode a) e (w\<lparr>log := log w @ [Parser_started, Arguments a]\<rparr>)")
     (simp add: main_def)

text \<open>The value a handler returns does not depend on the state it starts from.\<close>

lemma pep_loop_value: "fst (pep_loop e tags results w) = fst (pep_loop e tags results w')"
  by (simp only: pep_loop_collect)

lemma pep_results_state: "fst (pep_results e w) = fst (pep_results e w')"
proof (cases "session_get e (PEP_URL e)")
  case None
  then show ?thesis by (simp add: pep_results_def get_response_def)
next
  case (Some response)
  show ?thesis
  proof (cases "find_tag (soup_of e response) (str ''section'') [((str ''id''), Equals (str ''numerical-index''))]")
    case (Inl err)
    with Some show ?thesis by (simp add: pep_results_def get_response_def)
  next
    case (Inr table_index)
    show ?thesis
    proof (cases "find_tag table_index (str ''tbody'') []")
      case (Inl err)
      with Some Inr show ?thesis by (simp add: pep_results_def get_response_def)
    next
      case tb: (Inr tbody_tag)
      show ?thesis
        by (simp only: pep_results_value[OF Some Inr tb])
    qed
  qed
qed

lemma pep_state: "fst (pep e w) = fst (pep e w')"
proof (cases "fst (pep_results e w)")
  case (Inl err)
  then have "fst (pep_results e w') = Inl err" using pep_results_state[of e w w'] by simp
  with Inl show ?thesis by (simp add: pep_raises)
next
  case (Inr r)
  then have r': "fst (pep_results e w') = Inr r" using pep_results_state[of e w w'] by simp
  show ?thesis
  proof (cases r)
    case None
    with Inr r' show ?thesis
      by (cases "pep_results e w"; cases "pep_results e w'") (simp add: pep_def)
  next
    case (Some rs)
    with Inr r' show ?thesis
      by (simp add: pep_of_results pep_table_eq)
  qed
qed

text \<open>
  C3. In \<open>whats_new\<close>, a failed fetch of one article does not end the run: when the
  other articles raise no exception, the table returned is the header followed by the
  rows of the other articles that were fetched, in the order of the document, and it
  has no row for the article whose fetch failed.
\<close>

theorem whats_new_fetch_failure_skipped:
  assumes "session_get e (urljoin e (MAIN_DOC_URL e) (str ''whatsnew/'')) = Some response"
    and "find_tag (soup_of e response) (str ''section'') [((str ''id''), Equals (str ''what-s-new-in-python''))] = Inr main_div"
    and "find_tag main_div (str ''div'') [((str ''class''), Equals (str ''toctree-wrapper''))] = Inr div_with_ul"
    and "find_all div_with_ul (str ''li'') [((str ''class''), Equals (str ''toctree-l1''))] = before @ sec # after"
    and "version_link e (urljoin e (MAIN_DOC_URL e) (str ''whatsnew/'')) sec = Inr link"
    and "session_get e link = None"
    and "list_all (\<lambda>s. \<not> isl (whats_new_step e (urljoin e (MAIN_DOC_URL e) (str ''whatsnew/'')) s))
           (before @ after)"
  shows "fst (whats_new e w) =
           Inr (Some (whats_new_header
                  # items_of (map (whats_new_step e (urljoin e (MAIN_DOC_URL e) (str ''whatsnew/''))) before)
                  @ items_of (map (whats_new_step e (urljoin e (MAIN_DOC_URL e) (str ''whatsnew/''))) after)))"
proof -
  let ?url = "urljoin e (MAIN_DOC_URL e) (str ''whatsnew/'')"
  let ?step = "whats_new_step e ?url"
  have skip: "?step sec = Inr None"
    using assms(5,6) by (simp add: whats_new_step_def)
  have "list_all (\<lambda>x. \<not> isl x) (map ?step (before @ after))"
    using assms(7) by (rule no_exception_map)
  then have "collect (map ?step (before @ after)) [whats_new_header] =
               Inr ([whats_new_header] @ items_of (map ?step (before @ after)))"
    by (rule collect_no_exception)
  moreover have "collect (map ?step (before @ sec # after)) [whats_new_header] =
                   collect (map ?step (before @ after)) [whats_new_header]"
    using skip collect_skip[of "map ?step before" "map ?step after"] by simp
  ultimately show ?thesis
    by (simp add: whats_new_value[OF assms(1,2,3)] assms(4) items_of_append)
qed

theorem whats_new_fetch_failure_skipped_witness:
  "session_get example_env (str ''docs/whatsnew/3.11.html'') = None \<and>
   fst (whats_new example_env example_world) =
     Inr (Some [whats_new_header,
                [S (str ''docs/whatsnew/3.12.html''), S (str ''What is new in 3.12''), S (str ''Editor Ann'')],
                [S (str ''docs/whatsnew/3.10.html''), S (str ''What is new in 3.10''), S (str ''Editor Ann'')]])"
proof -
  let ?url = "urljoin example_env (MAIN_DOC_URL example_env) (str ''whatsnew/'')"
  let ?r = "\<lparr>response_text = (str ''whatsnew''), response_content = ''whatsnew''\<rparr>"
  let ?main = "projr (find_tag (soup_of example_env ?r) (str ''section'')
                        [((str ''id''), Equals (str ''what-s-new-in-python''))])"
  let ?div = "projr (find_tag ?main (str ''div'') [((str ''class''), Equals (str ''toctree-wrapper''))])"
  let ?secs = "find_all ?div (str ''li'') [((str ''class''), Equals (str ''toctree-l1''))]"
  have h1: "session_get example_env ?url = Some ?r" by code_simp
  have h2: "find_tag (soup_of example_env ?r) (str ''section'')
              [((str ''id''), Equals (str ''what-s-new-in-python''))] = Inr ?main" by code_simp
  have h3: "find_tag ?main (str ''div'') [((str ''class''), Equals (str ''toctree-wrapper''))] = Inr ?div"
    by code_simp
  have h4: "?secs = [?secs ! 0] @ (?secs ! 1) # [?secs ! 2]" by code_simp
  have h5: "version_link example_env ?url (?secs ! 1) = Inr (str ''docs/whatsnew/3.11.html'')"
    by code_simp
  have h6: "session_get example_env (str ''docs/whatsnew/3.11.html'') = None" by code_simp
  have h7: "list_all (\<lambda>s. \<not> isl (whats_new_step example_env ?url s)) ([?secs ! 0] @ [?secs ! 2])"
    by code_simp
  have r1: "items_of (map (whats_new_step example_env ?url) [?secs ! 0]) =
              [[S (str ''docs/whatsnew/3.12.html''), S (str ''What is new in 3.12''), S (str ''Editor Ann'')]]"
    by code_simp
  have r2: "items_of (map (whats_new_step example_env ?url) [?secs ! 2]) =
              [[S (str ''docs/whatsnew/3.10.html''), S (str ''What is new in 3.10''), S (str ''Editor Ann'')]]"
    by code_simp
  from whats_new_fetch_failure_skipped[OF h1 h2 h3 h4 h5 h6 h7, of example_world] h6
  show ?thesis by (simp only: r1 r2) simp
qed

subsection \<open>The pattern of the version links\<close>












subsection \<open>\<open>latest_versions\<close>\<close>

lemma latest_versions_loop_eq:
  "list_all (\<lambda>a. tag_get (fst a) (str ''href'') \<noteq> None) a_tags \<Longrightarrow>
     latest_versions_loop a_tags results =
       Inr (results @ map (\<lambda>a. version_row (the (tag_get (fst a) (str ''href''))) (get_text (fst a))) a_tags)"
  by (induction a_tags arbitrary: results) (auto simp: version_row_def)

lemma latest_versions_requests:
  "requests (snd (latest_versions e w)) = requests w @ [MAIN_DOC_URL e]"
  by (simp add: latest_versions_def get_response_def split: option.splits sum.splits)

lemma all_versions_links_none:
  "list_all (\<lambda>ul. \<not> contains (get_text (fst ul)) (str ''All versions'')) ul_tags \<Longrightarrow>
     all_versions_links ul_tags = Inl (Exception nothing_found)"
  by (induction ul_tags) simp_all

lemma latest_versions_loop_hrefs:
  "latest_versions_loop a_tags results = Inr table \<Longrightarrow>
     list_all (\<lambda>a. tag_get (fst a) (str ''href'') \<noteq> None) a_tags"
  by (induction a_tags arbitrary: results) (auto split: option.splits)

lemma latest_versions_unfetched:
  "session_get e (MAIN_DOC_URL e) = None \<Longrightarrow> fst (latest_versions e w) = Inr None"
  by (simp add: latest_versions_def get_response_def)

lemma latest_versions_no_sidebar:
  "session_get e (MAIN_DOC_URL e) = Some response \<Longrightarrow>
   find_tag (soup_of e response) (str ''div'') [((str ''class''), Equals (str ''sphinxsidebarwrapper''))] = Inl err \<Longrightarrow>
     fst (latest_versions e w) = Inl err"
  by (simp add: latest_versions_def get_response_def)

lemma latest_versions_no_list:
  "session_get e (MAIN_DOC_URL e) = Some response \<Longrightarrow>
   find_tag (soup_of e response) (str ''div'') [((str ''class''), Equals (str ''sphinxsidebarwrapper''))] = Inr sidebar \<Longrightarrow>
   all_versions_links (find_all sidebar (str ''ul'') []) = Inl err \<Longrightarrow>
     fst (latest_versions e w) = Inl err"
  by (simp add: latest_versions_def get_response_def)

lemma latest_versions_value:
  "session_get e (MAIN_DOC_URL e) = Some response \<Longrightarrow>
   find_tag (soup_of e response) (str ''div'') [((str ''class''), Equals (str ''sphinxsidebarwrapper''))] = Inr sidebar \<Longrightarrow>
   all_versions_links (find_all sidebar (str ''ul'') []) = Inr a_tags \<Longrightarrow>
     fst (latest_versions e w) =
       (case latest_versions_loop a_tags [latest_versions_header] of
          Inl err \<Rightarrow> Inl err
        | Inr results \<Rightarrow> Inr (Some results))"
  by (simp add: latest_versions_def get_response_def split: sum.splits)

lemma latest_versions_table:
  assumes "fst (latest_versions e w) = Inr (Some table)"
  shows "\<exists>a_tags :: element list. list_all (\<lambda>a. tag_get (fst a) (str ''href'') \<noteq> None) a_tags \<and>
           table = latest_versions_header
                     # map (\<lambda>a. version_row (the (tag_get (fst a) (str ''href''))) (get_text (fst a))) a_tags"
proof (cases "session_get e (MAIN_DOC_URL e)")
  case None
  from latest_versions_unfetched[OF None, of w] assms have False by simp
  then show ?thesis by (rule FalseE)
next
  case (Some response)
  show ?thesis
  proof (cases "find_tag (soup_of e response) (str ''div'') [((str ''class''), Equals (str ''sphinxsidebarwrapper''))]")
    case (Inl err)
    from latest_versions_no_sidebar[OF Some Inl, of w] assms have False by simp
    then show ?thesis by (rule FalseE)
  next
    case (Inr sidebar)
    show ?thesis
    proof (cases "all_versions_links (find_all sidebar (str ''ul'') [])")
      case (Inl err)
      from latest_versions_no_list[OF Some Inr Inl, of w] assms have False by simp
      then show ?thesis by (rule FalseE)
    next
      case links: (Inr a_tags)
      note lv = latest_versions_value[OF Some Inr links, of w]
      show ?thesis
      proof (cases "latest_versions_loop a_tags [latest_versions_header]")
        case (Inl err)
        with lv assms have False by simp
        then show ?thesis by (rule FalseE)
      next
        case loop: (Inr results)
        with lv assms have t: "results = table" by simp
        have h: "list_all (\<lambda>a. tag_get (fst a) (str ''href'') \<noteq> None) a_tags"
          using loop by (rule latest_versions_loop_hrefs)
        have "latest_versions_loop a_tags [latest_versions_header] =
            Inr ([latest_versions_header]
                   @ map (\<lambda>a. version_row (the (tag_get (fst a) (str ''href''))) (get_text (fst a))) a_tags)"
          using h by (rule latest_versions_loop_eq)
        with loop have "results = [latest_versions_header]
            @ map (\<lambda>a. version_row (the (tag_get (fst a) (str ''href''))) (get_text (fst a))) a_tags"
          by (simp only: sum.inject)
        then have teq: "table = latest_versions_header
                # map (\<lambda>a. version_row (the (tag_get (fst a) (str ''href''))) (get_text (fst a))) a_tags"
          unfolding t by (simp only: append_Cons append_Nil)
        from h teq have both: "list_all (\<lambda>a. tag_get (fst a) (str ''href'') \<noteq> None) a_tags \<and>
            table = latest_versions_header
                # map (\<lambda>a. version_row (the (tag_get (fst a) (str ''href''))) (get_text (fst a))) a_tags"
          by (rule conjI)
        show ?thesis
          by (rule exI[where x = a_tags]) (rule both)
      qed
    qed
  qed
qed







text \<open>
  C6. When the main page is fetched and its sidebar found, and no list of the sidebar
  has the text \<open>All versions\<close>, \<open>latest_versions\<close> raises: it returns no table, not
  even an empty one, and the exception ends the run in \<open>main\<close>.
\<close>

theorem latest_versions_no_list_raises:
  assumes "session_get e (MAIN_DOC_URL e) = Some response"
    and "find_tag (soup_of e response) (str ''div'') [((str ''class''), Equals (str ''sphinxsidebarwrapper''))] = Inr sidebar"
    and "list_all (\<lambda>ul. \<not> contains (get_text (fst ul)) (str ''All versions'')) (find_all sidebar (str ''ul'') [])"
  shows "fst (latest_versions e w) = Inl (Exception nothing_found) \<and>
         fst (main e \<lparr>args_mode = Latest_versions, clear_cache = c\<rparr> w) = Inl (Exception nothing_found)"
proof -
  have raises: "fst (latest_versions e w') = Inl (Exception nothing_found)" for w'
    using assms(1,2) all_versions_links_none[OF assms(3)]
    by (simp add: latest_versions_def get_response_def)
  let ?a = "\<lparr>args_mode = Latest_versions, clear_cache = c\<rparr>"
  have "fst (MODE_TO_FUNCTION (args_mode ?a) e (w\<lparr>log := log w @ [Parser_started, Arguments ?a]\<rparr>)) =
          Inl (Exception nothing_found)"
    using raises by simp
  then have "fst (main e ?a w) = Inl (Exception nothing_found)" by (rule main_raises)
  with raises show ?thesis by simp
qed

theorem latest_versions_no_list_raises_witness:
  "list_all (\<lambda>ul. \<not> contains (get_text (fst ul)) (str ''All versions''))
     (find_all
        (projr (find_tag (soup_of (example_env\<lparr>session_get := (\<lambda>url. page ''main bare'')\<rparr>)
                            \<lparr>response_text = (str ''main bare''), response_content = ''main bare''\<rparr>)
                  (str ''div'') [((str ''class''), Equals (str ''sphinxsidebarwrapper''))]))
        (str ''ul'') []) \<and>
   fst (latest_versions (example_env\<lparr>session_get := (\<lambda>url. page ''main bare'')\<rparr>) example_world) =
     Inl (Exception nothing_found)"
proof -
  let ?e = "example_env\<lparr>session_get := (\<lambda>url. page ''main bare'')\<rparr>"
  let ?r = "\<lparr>response_text = (str ''main bare''), response_content = ''main bare''\<rparr>"
  let ?sb = "projr (find_tag (soup_of ?e ?r) (str ''div'') [((str ''class''), Equals (str ''sphinxsidebarwrapper''))])"
  have h1: "session_get ?e (MAIN_DOC_URL ?e) = Some ?r" by (simp add: page_def)
  have h2: "find_tag (soup_of ?e ?r) (str ''div'') [((str ''class''), Equals (str ''sphinxsidebarwrapper''))] = Inr ?sb"
    by code_simp
  have h3: "list_all (\<lambda>ul. \<not> contains (get_text (fst ul)) (str ''All versions'')) (find_all ?sb (str ''ul'') [])"
    by code_simp
  from latest_versions_no_list_raises[OF h1 h2 h3, of example_world] h3 show ?thesis by simp
qed

text \<open>
  C7. For a main page whose sidebar has a list with the text \<open>All versions\<close>, every
  link of which has an address, \<open>latest_versions\<close> returns the header row followed by
  one row for each link of that list, in the order of the links, and it makes
  exactly one request.
\<close>

theorem latest_versions_rows:
  assumes "session_get e (MAIN_DOC_URL e) = Some response"
    and "find_tag (soup_of e response) (str ''div'') [((str ''class''), Equals (str ''sphinxsidebarwrapper''))] = Inr sidebar"
    and "all_versions_links (find_all sidebar (str ''ul'') []) = Inr a_tags"
    and "list_all (\<lambda>a. tag_get (fst a) (str ''href'') \<noteq> None) a_tags"
  shows "fst (latest_versions e w) =
           Inr (Some (latest_versions_header
                  # map (\<lambda>a. version_row (the (tag_get (fst a) (str ''href''))) (get_text (fst a))) a_tags)) \<and>
         requests (snd (latest_versions e w)) = requests w @ [MAIN_DOC_URL e]"
  using assms(1,2,3) latest_versions_loop_eq[OF assms(4), of "[latest_versions_header]"]
  by (simp add: latest_versions_def get_response_def)

theorem latest_versions_rows_witness:
  "fst (latest_versions example_env example_world) =
     Inr (Some [latest_versions_header,
                [S (str ''/3.13/''), S (str ''3.13''), S (str ''in development'')],
                [S (str ''/3.12/''), S (str ''3.12''), S (str ''stable'')],
                [S (str ''/versions/''), S (str ''All versions''), S []]]) \<and>
   requests (snd (latest_versions example_env example_world)) = [(str ''docs/'')]"
proof -
  let ?r = "\<lparr>response_text = (str ''main''), response_content = ''main''\<rparr>"
  let ?sb = "projr (find_tag (soup_of example_env ?r) (str ''div'') [((str ''class''), Equals (str ''sphinxsidebarwrapper''))])"
  let ?as = "projr (all_versions_links (find_all ?sb (str ''ul'') []))"
  have h1: "session_get example_env (MAIN_DOC_URL example_env) = Some ?r" by code_simp
  have h2: "find_tag (soup_of example_env ?r) (str ''div'') [((str ''class''), Equals (str ''sphinxsidebarwrapper''))] = Inr ?sb"
    by code_simp
  have h3: "all_versions_links (find_all ?sb (str ''ul'') []) = Inr ?as" by code_simp
  have h4: "list_all (\<lambda>a. tag_get (fst a) (str ''href'') \<noteq> None) ?as" by code_simp
  have rows: "map (\<lambda>a. version_row (the (tag_get (fst a) (str ''href''))) (get_text (fst a))) ?as =
     [[S (str ''/3.13/''), S (str ''3.13''), S (str ''in development'')],
      [S (str ''/3.12/''), S (str ''3.12''), S (str ''stable'')],
      [S (str ''/versions/''), S (str ''All versions''), S []]]"
    by code_simp
  have rq: "requests example_world @ [MAIN_DOC_URL example_env] = [(str ''docs/'')]"
    by (simp add: example_world_def example_env_def)
  from latest_versions_rows[OF h1 h2 h3 h4, of example_world] show ?thesis
    by (simp only: rows rq)
qed

subsection \<open>Missing structure inside the loops\<close>


















subsection \<open>The archive\<close>

lemma fs_path_snoc:
  "c \<noteq> str ''..'' \<Longrightarrow> c \<noteq> str ''.'' \<Longrightarrow> c \<noteq> [] \<Longrightarrow> fs_path (p @ [c]) = fs_path p @ [c]"
  by (simp add: fs_path_def)

lemma fs_path_downloads:
  "fs_path (p @ [str ''downloads'']) = fs_path p @ [str ''downloads'']"
  by (rule fs_path_snoc) simp_all

lemma fs_path_archive:
  assumes "name \<noteq> str ''..''" and "name \<noteq> str ''.''" and "name \<noteq> []"
  shows "fs_path (p @ [str ''downloads'', name]) = fs_path p @ [str ''downloads'', name]"
proof -
  have "fs_path ((p @ [str ''downloads'']) @ [name]) = fs_path (p @ [str ''downloads'']) @ [name]"
    using assms by (rule fs_path_snoc)
  then show ?thesis by (simp add: fs_path_downloads)
qed

lemma last_segment_after_slash:
  assumes "cp CHR ''/'' \<notin> set name"
  shows "last_segment (pre @ cp CHR ''/'' # name) = name"
proof -
  have "\<And>c. c \<in> set (rev name) \<Longrightarrow> c \<noteq> cp CHR ''/''" using assms by auto
  then have "takeWhile (\<lambda>c. c \<noteq> cp CHR ''/'') (rev name @ cp CHR ''/'' # rev pre) =
             rev name @ takeWhile (\<lambda>c. c \<noteq> cp CHR ''/'') (cp CHR ''/'' # rev pre)"
    by (rule takeWhile_append2)
  then have "takeWhile (\<lambda>c. c \<noteq> cp CHR ''/'') (rev name @ cp CHR ''/'' # rev pre) = rev name"
    by simp
  then show ?thesis by (simp add: last_segment_def)
qed

lemma last_segment_no_slash: "cp CHR ''/'' \<notin> set (last_segment url)"
  unfolding last_segment_def by (auto dest: set_takeWhileD)

lemma mkdir_requests:
  "mkdir_exist_ok p (w\<lparr>requests := r\<rparr>) =
     (fst (mkdir_exist_ok p w), (snd (mkdir_exist_ok p w))\<lparr>requests := r\<rparr>)"
  by (simp add: mkdir_exist_ok_def Let_def)

lemma mkdir_done:
  "fst (mkdir_exist_ok p w) = Inr u \<Longrightarrow>
     snd (mkdir_exist_ok p w) = w\<lparr>dirs := insert (fs_path p) (dirs w)\<rparr>"
  by (auto simp: mkdir_exist_ok_def Let_def insert_absorb split: if_splits)

lemma mkdir_raises:
  "fst (mkdir_exist_ok p w) = Inl err \<Longrightarrow> snd (mkdir_exist_ok p w) = w"
  by (auto simp: mkdir_exist_ok_def Let_def split: if_splits)

lemma download_steps:
  assumes "session_get e (urljoin e (MAIN_DOC_URL e) (str ''download.html'')) = Some response"
    and "find_tag (soup_of e response) (str ''table'') [(str ''class'', Equals (str ''docutils''))] = Inr table_tag"
    and "find_tag table_tag (str ''a'') [(str ''href'', Regex Pdf_a4_zip)] = Inr pdf_a4_tag"
    and "tag_get (fst pdf_a4_tag) (str ''href'') = Some pdf_a4_link"
  shows "download e w =
     (let downloads_url = urljoin e (MAIN_DOC_URL e) (str ''download.html'');
          archive_url = urljoin e downloads_url pdf_a4_link;
          w1 = w\<lparr>requests := requests w @ [downloads_url]\<rparr>
      in case fst (mkdir_exist_ok (BASE_DIR e @ [str ''downloads'']) w) of
           Inl err \<Rightarrow> (Inl err, w1)
         | Inr u \<Rightarrow>
             (let w2 = w1\<lparr>dirs := insert (fs_path (BASE_DIR e @ [str ''downloads''])) (dirs w)\<rparr> in
              case session_get e archive_url of
                None \<Rightarrow> (Inr None, w2\<lparr>requests := requests w2 @ [archive_url],
                                        log := log w2 @ [Fetch_failed archive_url]\<rparr>)
              | Some archive \<Rightarrow>
                  (case write_file (BASE_DIR e @ [str ''downloads'', last_segment archive_url])
                          (response_content archive) (w2\<lparr>requests := requests w2 @ [archive_url]\<rparr>) of
                     (Inl err, w4) \<Rightarrow> (Inl err, w4)
                   | (Inr u2, w4) \<Rightarrow>
                       (Inr None,
                        w4\<lparr>log := log w4 @ [Archive_saved (BASE_DIR e @
                                                           [str ''downloads'', last_segment archive_url])]\<rparr>))))"
proof (cases "fst (mkdir_exist_ok (BASE_DIR e @ [str ''downloads'']) w)")
  case (Inl err)
  then show ?thesis
    using mkdir_raises[OF Inl]
    by (simp add: download_def get_response_def Let_def assms mkdir_requests)
next
  case (Inr u)
  then show ?thesis
    using mkdir_done[OF Inr]
    by (simp add: download_def get_response_def Let_def assms mkdir_requests
             split: option.splits)
qed

lemma write_done:
  "fs_path p \<notin> dirs w \<Longrightarrow> files w (butlast (fs_path p)) = None \<Longrightarrow>
   butlast (fs_path p) \<in> dirs w \<Longrightarrow>
     write_file p data w = (Inr (), w\<lparr>files := (files w)(fs_path p \<mapsto> data)\<rparr>)"
  by (simp add: write_file_def Let_def)

lemma download_saved:
  assumes "session_get e (urljoin e (MAIN_DOC_URL e) (str ''download.html'')) = Some response"
    and "find_tag (soup_of e response) (str ''table'') [(str ''class'', Equals (str ''docutils''))] = Inr table_tag"
    and "find_tag table_tag (str ''a'') [(str ''href'', Regex Pdf_a4_zip)] = Inr pdf_a4_tag"
    and "tag_get (fst pdf_a4_tag) (str ''href'') = Some pdf_a4_link"
    and url: "archive_url = urljoin e (urljoin e (MAIN_DOC_URL e) (str ''download.html'')) pdf_a4_link"
    and mk: "fst (mkdir_exist_ok (BASE_DIR e @ [str ''downloads'']) w) = Inr ()"
    and fetched: "session_get e archive_url = Some archive"
    and name: "last_segment archive_url \<noteq> []" "last_segment archive_url \<noteq> str ''.''"
      "last_segment archive_url \<noteq> str ''..''"
    and nd: "fs_path (BASE_DIR e) @ [str ''downloads'', last_segment archive_url] \<notin> dirs w"
    and nf: "files w (fs_path (BASE_DIR e) @ [str ''downloads'']) = None"
  shows "download e w =
    (Inr None,
     w\<lparr>requests := requests w @ [urljoin e (MAIN_DOC_URL e) (str ''download.html''), archive_url],
        dirs := insert (fs_path (BASE_DIR e) @ [str ''downloads'']) (dirs w),
        files := (files w)(fs_path (BASE_DIR e) @ [str ''downloads'', last_segment archive_url]
                             \<mapsto> response_content archive),
        log := log w @ [Archive_saved (BASE_DIR e @ [str ''downloads'', last_segment archive_url])]\<rparr>)"
proof -
  let ?w3 = "w\<lparr>requests := requests w @ [urljoin e (MAIN_DOC_URL e) (str ''download.html'')],
                dirs := insert (fs_path (BASE_DIR e @ [str ''downloads''])) (dirs w),
                requests := (requests w @ [urljoin e (MAIN_DOC_URL e) (str ''download.html'')]) @
                            [archive_url]\<rparr>"
  let ?p = "BASE_DIR e @ [str ''downloads'', last_segment archive_url]"
  have q: "fs_path ?p = fs_path (BASE_DIR e) @ [str ''downloads'', last_segment archive_url]"
    using name(3,2,1) by (rule fs_path_archive)
  have bl: "butlast (fs_path ?p) = fs_path (BASE_DIR e) @ [str ''downloads'']"
    by (simp add: q butlast_append)
  have "fs_path ?p \<notin> dirs ?w3"
    using nd by (simp add: q fs_path_downloads)
  moreover have "files ?w3 (butlast (fs_path ?p)) = None"
    using nf by (simp add: bl)
  moreover have "butlast (fs_path ?p) \<in> dirs ?w3"
    by (simp add: bl fs_path_downloads)
  ultimately have "write_file ?p (response_content archive) ?w3 =
      (Inr (), ?w3\<lparr>files := (files ?w3)(fs_path ?p \<mapsto> response_content archive)\<rparr>)"
    by (rule write_done)
  then show ?thesis
    unfolding download_steps[OF assms(1-4)] url[symmetric] Let_def
    by (simp add: mk fetched q fs_path_downloads)
qed

lemma download_unfetched:
  assumes "session_get e (urljoin e (MAIN_DOC_URL e) (str ''download.html'')) = Some response"
    and "find_tag (soup_of e response) (str ''table'') [(str ''class'', Equals (str ''docutils''))] = Inr table_tag"
    and "find_tag table_tag (str ''a'') [(str ''href'', Regex Pdf_a4_zip)] = Inr pdf_a4_tag"
    and "tag_get (fst pdf_a4_tag) (str ''href'') = Some pdf_a4_link"
    and url: "archive_url = urljoin e (urljoin e (MAIN_DOC_URL e) (str ''download.html'')) pdf_a4_link"
    and unfetched: "session_get e archive_url = None"
  shows "fst (mkdir_exist_ok (BASE_DIR e @ [str ''downloads'']) w) = Inr () \<Longrightarrow>
      download e w =
        (Inr None,
         w\<lparr>requests := requests w @ [urljoin e (MAIN_DOC_URL e) (str ''download.html''), archive_url],
            dirs := insert (fs_path (BASE_DIR e @ [str ''downloads''])) (dirs w),
            log := log w @ [Fetch_failed archive_url]\<rparr>)"
    and "fst (mkdir_exist_ok (BASE_DIR e @ [str ''downloads'']) w) = Inl err \<Longrightarrow>
      download e w =
        (Inl err, w\<lparr>requests := requests w @ [urljoin e (MAIN_DOC_URL e) (str ''download.html'')]\<rparr>)"
  unfolding download_steps[OF assms(1-4)] url[symmetric] Let_def
  by (simp_all add: unfetched)

text \<open>
  C8. When the downloads page and the archive are both fetched, the page has a table
  of class \<open>docutils\<close> with a link to a \<open>pdf-a4.zip\<close>, the downloads directory exists
  or can be made, the last segment of the address of the archive is a file name, no
  directory stands at the path of the archive and no file at the path of the
  downloads directory, then \<open>download\<close> returns \<open>None\<close> and the file system differs
  in the downloads directory and in one file: its path is the downloads directory
  followed by the last segment of the address of the archive, its content is the
  body of the response. The last segment is what follows the last slash.
\<close>

theorem download_writes_archive:
  assumes "session_get e (urljoin e (MAIN_DOC_URL e) (str ''download.html'')) = Some response"
    and "find_tag (soup_of e response) (str ''table'') [(str ''class'', Equals (str ''docutils''))] = Inr table_tag"
    and "find_tag table_tag (str ''a'') [(str ''href'', Regex Pdf_a4_zip)] = Inr pdf_a4_tag"
    and "tag_get (fst pdf_a4_tag) (str ''href'') = Some pdf_a4_link"
    and "archive_url = urljoin e (urljoin e (MAIN_DOC_URL e) (str ''download.html'')) pdf_a4_link"
    and "fst (mkdir_exist_ok (BASE_DIR e @ [str ''downloads'']) w) = Inr ()"
    and "session_get e archive_url = Some archive"
    and "last_segment archive_url \<noteq> []" and "last_segment archive_url \<noteq> str ''.''"
    and "last_segment archive_url \<noteq> str ''..''"
    and "fs_path (BASE_DIR e) @ [str ''downloads'', last_segment archive_url] \<notin> dirs w"
    and "files w (fs_path (BASE_DIR e) @ [str ''downloads'']) = None"
  shows "fst (download e w) = Inr None \<and>
    files (snd (download e w)) =
      (files w)(fs_path (BASE_DIR e) @ [str ''downloads'', last_segment archive_url]
                  \<mapsto> response_content archive) \<and>
    dirs (snd (download e w)) = insert (fs_path (BASE_DIR e) @ [str ''downloads'']) (dirs w) \<and>
    requests (snd (download e w)) =
      requests w @ [urljoin e (MAIN_DOC_URL e) (str ''download.html''), archive_url] \<and>
    log (snd (download e w)) =
      log w @ [Archive_saved (BASE_DIR e @ [str ''downloads'', last_segment archive_url])] \<and>
    cp CHR ''/'' \<notin> set (last_segment archive_url) \<and>
    (\<forall>pre name. archive_url = pre @ cp CHR ''/'' # name \<and> cp CHR ''/'' \<notin> set name \<longrightarrow>
       last_segment archive_url = name)"
proof -
  have "\<forall>pre name. archive_url = pre @ cp CHR ''/'' # name \<and> cp CHR ''/'' \<notin> set name \<longrightarrow>
          last_segment archive_url = name"
    using last_segment_after_slash by blast
  then show ?thesis
    unfolding download_saved[OF assms] by (simp add: last_segment_no_slash)
qed

theorem download_writes_archive_witness:
  "fst (download example_env example_world) = Inr None \<and>
   files (snd (download example_env example_world))
     [str ''srv'', str ''src'', str ''downloads'', str ''archive-3.12.pdf-a4.zip''] =
     Some ''PK archive'' \<and>
   last_segment (str ''docs/archives/archive-3.12.pdf-a4.zip'') = str ''archive-3.12.pdf-a4.zip''"
proof -
  let ?r = "\<lparr>response_text = str ''downloads'', response_content = ''downloads''\<rparr>"
  let ?table = "projr (find_tag (soup_of example_env ?r) (str ''table'')
                         [(str ''class'', Equals (str ''docutils''))])"
  let ?a = "projr (find_tag ?table (str ''a'') [(str ''href'', Regex Pdf_a4_zip)])"
  let ?url = "str ''docs/archives/archive-3.12.pdf-a4.zip''"
  let ?archive = "\<lparr>response_text = str ''PK archive'', response_content = ''PK archive''\<rparr>"
  have h1: "session_get example_env (urljoin example_env (MAIN_DOC_URL example_env) (str ''download.html'')) = Some ?r"
    by code_simp
  have h2: "find_tag (soup_of example_env ?r) (str ''table'')
              [(str ''class'', Equals (str ''docutils''))] = Inr ?table"
    by code_simp
  have h3: "find_tag ?table (str ''a'') [(str ''href'', Regex Pdf_a4_zip)] = Inr ?a"
    by code_simp
  have h4: "tag_get (fst ?a) (str ''href'') = Some (str ''archives/archive-3.12.pdf-a4.zip'')"
    by code_simp
  have h5: "?url = urljoin example_env (urljoin example_env (MAIN_DOC_URL example_env) (str ''download.html''))
                     (str ''archives/archive-3.12.pdf-a4.zip'')"
    by code_simp
  have h6: "fst (mkdir_exist_ok (BASE_DIR example_env @ [str ''downloads'']) example_world) = Inr ()"
    by code_simp
  have h7: "session_get example_env ?url = Some ?archive" by code_simp
  have h8: "last_segment ?url \<noteq> []" by code_simp
  have h9: "last_segment ?url \<noteq> str ''.''" by code_simp
  have h10: "last_segment ?url \<noteq> str ''..''" by code_simp
  have h11: "fs_path (BASE_DIR example_env) @ [str ''downloads'', last_segment ?url] \<notin> dirs example_world"
    by code_simp
  have h12: "files example_world (fs_path (BASE_DIR example_env) @ [str ''downloads'']) = None"
    by code_simp
  have p: "fs_path (BASE_DIR example_env) @ [str ''downloads'', last_segment ?url] =
             [str ''srv'', str ''src'', str ''downloads'', str ''archive-3.12.pdf-a4.zip'']"
    by code_simp
  have seg: "last_segment ?url = str ''archive-3.12.pdf-a4.zip''" by code_simp
  note saved = download_writes_archive[OF h1 h2 h3 h4 h5 h6 h7 h8 h9 h10 h11 h12]
  have "files (snd (download example_env example_world)) =
          (files example_world)([str ''srv'', str ''src'', str ''downloads'', str ''archive-3.12.pdf-a4.zip'']
                                  \<mapsto> response_content ?archive)"
    using saved[THEN conjunct2, THEN conjunct1] unfolding p .
  then have "files (snd (download example_env example_world))
               [str ''srv'', str ''src'', str ''downloads'', str ''archive-3.12.pdf-a4.zip''] =
             Some ''PK archive''"
    by (simp only: fun_upd_same response.simps)
  with saved[THEN conjunct1] seg show ?thesis by (intro conjI)
qed

text \<open>
  C10. \<open>download\<close> makes the downloads directory before it requests the archive.
  When the page is fetched and holds the link, and the fetch of the archive fails:
  if the directory exists or can be made, \<open>download\<close> returns \<open>None\<close>, the directory
  exists afterwards, no file is written and the failure is logged; if making the
  directory raises, the exception leaves \<open>download\<close> and the archive is never
  requested.
\<close>

theorem download_archive_unfetched:
  assumes "session_get e (urljoin e (MAIN_DOC_URL e) (str ''download.html'')) = Some response"
    and "find_tag (soup_of e response) (str ''table'') [(str ''class'', Equals (str ''docutils''))] = Inr table_tag"
    and "find_tag table_tag (str ''a'') [(str ''href'', Regex Pdf_a4_zip)] = Inr pdf_a4_tag"
    and "tag_get (fst pdf_a4_tag) (str ''href'') = Some pdf_a4_link"
    and "archive_url = urljoin e (urljoin e (MAIN_DOC_URL e) (str ''download.html'')) pdf_a4_link"
    and "session_get e archive_url = None"
  shows "(fst (mkdir_exist_ok (BASE_DIR e @ [str ''downloads'']) w) = Inr () \<longrightarrow>
      fst (download e w) = Inr None \<and>
      fs_path (BASE_DIR e @ [str ''downloads'']) \<in> dirs (snd (download e w)) \<and>
      dirs (snd (download e w)) = insert (fs_path (BASE_DIR e @ [str ''downloads''])) (dirs w) \<and>
      files (snd (download e w)) = files w \<and>
      requests (snd (download e w)) =
        requests w @ [urljoin e (MAIN_DOC_URL e) (str ''download.html''), archive_url] \<and>
      log (snd (download e w)) = log w @ [Fetch_failed archive_url]) \<and>
    (fst (mkdir_exist_ok (BASE_DIR e @ [str ''downloads'']) w) = Inl err \<longrightarrow>
      fst (download e w) = Inl err \<and>
      snd (download e w) =
        w\<lparr>requests := requests w @ [urljoin e (MAIN_DOC_URL e) (str ''download.html'')]\<rparr>)"
proof (intro conjI impI)
  assume mk: "fst (mkdir_exist_ok (BASE_DIR e @ [str ''downloads'']) w) = Inr ()"
  note eq = download_unfetched(1)[OF assms mk]
  show "fst (download e w) = Inr None" unfolding eq by simp
  show "fs_path (BASE_DIR e @ [str ''downloads'']) \<in> dirs (snd (download e w))"
    unfolding eq by simp
  show "dirs (snd (download e w)) = insert (fs_path (BASE_DIR e @ [str ''downloads''])) (dirs w)"
    unfolding eq by simp
  show "files (snd (download e w)) = files w" unfolding eq by simp
  show "requests (snd (download e w)) =
        requests w @ [urljoin e (MAIN_DOC_URL e) (str ''download.html''), archive_url]"
    unfolding eq by simp
  show "log (snd (download e w)) = log w @ [Fetch_failed archive_url]" unfolding eq by simp
next
  assume mk: "fst (mkdir_exist_ok (BASE_DIR e @ [str ''downloads'']) w) = Inl err"
  note eq = download_unfetched(2)[OF assms mk]
  show "fst (download e w) = Inl err" unfolding eq by simp
  show "snd (download e w) =
        w\<lparr>requests := requests w @ [urljoin e (MAIN_DOC_URL e) (str ''download.html'')]\<rparr>"
    unfolding eq by simp
qed

theorem download_archive_unfetched_witness:
  "[str ''srv'', str ''src'', str ''downloads''] \<notin> dirs example_world \<and>
   fst (download archiveless_env example_world) = Inr None \<and>
   [str ''srv'', str ''src'', str ''downloads''] \<in> dirs (snd (download archiveless_env example_world)) \<and>
   files (snd (download archiveless_env example_world)) = files example_world \<and>
   log (snd (download archiveless_env example_world)) =
     [Fetch_failed (str ''docs/archives/archive-3.12.pdf-a4.zip'')]"
proof -
  let ?r = "\<lparr>response_text = str ''downloads'', response_content = ''downloads''\<rparr>"
  let ?table = "projr (find_tag (soup_of archiveless_env ?r) (str ''table'')
                         [(str ''class'', Equals (str ''docutils''))])"
  let ?a = "projr (find_tag ?table (str ''a'') [(str ''href'', Regex Pdf_a4_zip)])"
  let ?url = "str ''docs/archives/archive-3.12.pdf-a4.zip''"
  have h1: "session_get archiveless_env (urljoin archiveless_env (MAIN_DOC_URL archiveless_env) (str ''download.html'')) = Some ?r"
    by code_simp
  have h2: "find_tag (soup_of archiveless_env ?r) (str ''table'')
              [(str ''class'', Equals (str ''docutils''))] = Inr ?table"
    by code_simp
  have h3: "find_tag ?table (str ''a'') [(str ''href'', Regex Pdf_a4_zip)] = Inr ?a"
    by code_simp
  have h4: "tag_get (fst ?a) (str ''href'') = Some (str ''archives/archive-3.12.pdf-a4.zip'')"
    by code_simp
  have h5: "?url = urljoin archiveless_env
                     (urljoin archiveless_env (MAIN_DOC_URL archiveless_env) (str ''download.html''))
                     (str ''archives/archive-3.12.pdf-a4.zip'')"
    by code_simp
  have h6: "session_get archiveless_env ?url = None" by code_simp
  have mk: "fst (mkdir_exist_ok (BASE_DIR archiveless_env @ [str ''downloads'']) example_world) = Inr ()"
    by code_simp
  have p: "fs_path (BASE_DIR archiveless_env @ [str ''downloads'']) =
             [str ''srv'', str ''src'', str ''downloads'']"
    by code_simp
  have before: "[str ''srv'', str ''src'', str ''downloads''] \<notin> dirs example_world"
    by code_simp
  have l: "log example_world = []" by code_simp
  note unfetched = download_archive_unfetched[OF h1 h2 h3 h4 h5 h6, of example_world,
                     THEN conjunct1, THEN mp, OF mk]
  have "[str ''srv'', str ''src'', str ''downloads''] \<in> dirs (snd (download archiveless_env example_world))"
    using unfetched[THEN conjunct2, THEN conjunct1] unfolding p .
  moreover have "log (snd (download archiveless_env example_world)) =
                   [Fetch_failed (str ''docs/archives/archive-3.12.pdf-a4.zip'')]"
    using unfetched[THEN conjunct2, THEN conjunct2, THEN conjunct2, THEN conjunct2, THEN conjunct2]
    unfolding l by (simp only: append_Nil)
  moreover note before unfetched[THEN conjunct1]
    unfetched[THEN conjunct2, THEN conjunct2, THEN conjunct2, THEN conjunct1]
  ultimately show ?thesis by (intro conjI)
qed

end
